theory Spec2Isabelle
  imports Main "HOL-Library.Word"
begin

unbundle bit_operations_syntax

section \<open>The optimizer catalog of pkg/sql/opt_catalog.go\<close>

text \<open>
  A shallow embedding of the catalog adaptation layer: the schema, view, sequence, table and
  virtual-table wrappers, their builders, and the staleness and equality checks.

  Conventions.
  \<^item> \<open>cat.StableID\<close> is a \<open>uint64\<close>; \<open>descpb.ID\<close>, \<open>descpb.ColumnID\<close>, \<open>descpb.IndexID\<close> and
    \<open>descpb.DescriptorVersion\<close> are \<open>uint32\<close>. A Go conversion between them is \<open>ucast\<close>.
  \<^item> A Go \<open>int\<close> that holds a length or an ordinal is a \<open>nat\<close>; one that may be negative
    (\<open>-1\<close> as "none", an index argument) is an \<open>int\<close>.
  \<^item> An error return and a panic are both the left injection of a sum; the constructor
    says which one it was.
  \<^item> A pointer whose identity the code compares is an address (a \<open>nat\<close>); \<open>nil\<close> is \<open>None\<close>.
    Zone configs are read through a store from addresses to values, so two equal pointers
    always see the same value.
\<close>

subsection \<open>Identifiers and errors\<close>

type_synonym StableID = "64 word"
type_synonym ID = "32 word"
type_synonym ColumnID = "32 word"
type_synonym IndexID = "32 word"
type_synonym DescriptorVersion = "32 word"

datatype error =
    AssertionFailed string
      \<comment> \<open>\<open>errors.AssertionFailedf\<close>, returned or raised with \<open>panic\<close>\<close>
  | UndefinedRelation StableID
      \<comment> \<open>\<open>sqlerrors.NewUndefinedRelationError\<close>\<close>
  | ErrDescriptorNotFound
      \<comment> \<open>an error for which \<open>errors.Is(err, catalog.ErrDescriptorNotFound)\<close> holds\<close>
  | AddingTableError
      \<comment> \<open>an error for which \<open>catalog.HasAddingTableError\<close> holds\<close>
  | ExternalError nat
      \<comment> \<open>any other error of a collaborator (lookup, zone config, schema resolution)\<close>
  | PanicMsg string
      \<comment> \<open>\<open>panic("...")\<close> with a plain string\<close>
  | IndexOutOfRange
      \<comment> \<open>the runtime panic of \<open>xs[i]\<close> or \<open>xs[:n]\<close> out of range\<close>
  | NilDereference
      \<comment> \<open>the runtime panic of reading through a nil pointer\<close>
  | TypeAssertionPanic
      \<comment> \<open>the runtime panic of a failed \<open>x.(*T)\<close>\<close>

definition MaxUint32 :: "32 word" where
  "MaxUint32 = 0xFFFFFFFF"

definition MaxInt64 :: "64 word" where
  "MaxInt64 = 0x7FFFFFFFFFFFFFFF"

subsection \<open>Descriptors\<close>

text \<open>
  The descriptor packages (\<open>descpb\<close>, \<open>tabledesc\<close>, \<open>dbdesc\<close>, \<open>catalog\<close>, \<open>types\<close>, \<open>colinfo\<close>)
  are imported by opt_catalog.go and declared elsewhere; the records below hold the fields
  that opt_catalog.go reads from them, under the names it reads them by.
\<close>

datatype TypeFamily = EnumFamily | OtherFamily nat

record types_T =
  UserDefined :: bool
  Family :: TypeFamily
  TypeMetaVersion :: "32 word"
  EnumMembers :: "string list"

record ColumnDescriptor =
  cd_ID :: ColumnID
  cd_Name :: string
  cd_Type :: types_T
  cd_Nullable :: bool
  cd_Hidden :: bool
  cd_DefaultExpr :: "string option"
  cd_ComputeExpr :: "string option"

datatype IndexType = FORWARD | INVERTED

datatype Direction = ASC | DESC

record IndexDescriptor =
  ix_ID :: IndexID
  ix_Name :: string
  ix_Unique :: bool
  ix_Type :: IndexType
  ix_ColumnIDs :: "ColumnID list"
  ix_ColumnDirections :: "Direction list"
  ix_ExtraColumnIDs :: "ColumnID list"
  ix_StoreColumnIDs :: "ColumnID list"
  ix_Predicate :: string

record ColumnFamilyDescriptor =
  fam_ID :: "32 word"
  fam_Name :: string
  fam_ColumnIDs :: "ColumnID list"

datatype ConstraintValidity = Validated | Unvalidated | Validating | Dropping

record CheckDescriptor =
  ck_Expr :: string
  ck_Validity :: ConstraintValidity

record ForeignKeyDescriptor =
  fkd_Name :: string
  fkd_OriginTableID :: ID
  fkd_OriginColumnIDs :: "ColumnID list"
  fkd_ReferencedTableID :: ID
  fkd_ReferencedColumnIDs :: "ColumnID list"
  fkd_Validity :: ConstraintValidity
  fkd_Match :: nat
  fkd_OnDelete :: nat
  fkd_OnUpdate :: nat

datatype DescKind = KindTable | KindMaterializedView | KindView | KindSequence | KindOther

text \<open>
  \<open>tabledesc.Immutable\<close>. The mutation columns and indexes are kept in the two groups the
  accessors of the descriptor distinguish: write-only ones and delete-only ones.
  \<open>td_Kind\<close> and \<open>td_Virtual\<close> stand for what \<open>IsTable\<close>, \<open>MaterializedView\<close>, \<open>IsView\<close>,
  \<open>IsSequence\<close> and \<open>IsVirtualTable\<close> answer.
\<close>

record TableDesc =
  td_ID :: ID
  td_Version :: DescriptorVersion
  td_Name :: string
  td_ParentID :: ID
  td_Kind :: DescKind
  td_Virtual :: bool
  td_ViewQuery :: string
  td_Columns :: "ColumnDescriptor list"
  td_WriteOnlyColumns :: "ColumnDescriptor list"
  td_DeleteOnlyColumns :: "ColumnDescriptor list"
  td_PrimaryIndex :: IndexDescriptor
  td_Indexes :: "IndexDescriptor list"
  td_WriteOnlyIndexes :: "IndexDescriptor list"
  td_DeleteOnlyIndexes :: "IndexDescriptor list"
  td_Families :: "ColumnFamilyDescriptor list"
  td_Checks :: "CheckDescriptor list"
  td_OutboundFKs :: "ForeignKeyDescriptor list"
  td_InboundFKs :: "ForeignKeyDescriptor list"

text \<open>
  Modelled from the spec: the accessors of \<open>tabledesc.Immutable\<close> are declared outside
  opt_catalog.go. "All non-dropped columns in descriptor order" are the public columns followed by
  the mutation columns, write-only ones first; the writable ones leave the delete-only
  columns out. The same holds for the secondary indexes.
\<close>

definition WritableColumns :: "TableDesc \<Rightarrow> ColumnDescriptor list" where
  "WritableColumns d = td_Columns d @ td_WriteOnlyColumns d"

definition DeletableColumns :: "TableDesc \<Rightarrow> ColumnDescriptor list" where
  "DeletableColumns d = td_Columns d @ td_WriteOnlyColumns d @ td_DeleteOnlyColumns d"

definition WritableIndexes :: "TableDesc \<Rightarrow> IndexDescriptor list" where
  "WritableIndexes d = td_Indexes d @ td_WriteOnlyIndexes d"

definition DeletableIndexes :: "TableDesc \<Rightarrow> IndexDescriptor list" where
  "DeletableIndexes d = td_Indexes d @ td_WriteOnlyIndexes d @ td_DeleteOnlyIndexes d"

text \<open>
  Modelled from the spec: \<open>FindColumnByName\<close> is declared in \<open>tabledesc\<close>. It succeeds
  when "a column of the same reserved name already exists on the table", among the public
  and the mutation columns; \<open>None\<close> is its error return.
\<close>

definition FindColumnByName :: "TableDesc \<Rightarrow> string \<Rightarrow> ColumnDescriptor option" where
  "FindColumnByName d n = find (\<lambda>c. cd_Name c = n) (DeletableColumns d)"

text \<open>
  Modelled from the spec: \<open>ActiveChecks\<close> is declared in \<open>tabledesc\<close>; the "declared, active
  checks" are the checks that are not being dropped.
\<close>

definition ActiveChecks :: "TableDesc \<Rightarrow> CheckDescriptor list" where
  "ActiveChecks d = filter (\<lambda>c. ck_Validity c \<noteq> Dropping) (td_Checks d)"

text \<open>
  Modelled from the spec: \<open>UserDefinedTypeColsHaveSameVersion\<close> is declared in
  \<open>tabledesc\<close>. It is false when "any column's user-defined-type version differs" between the
  two descriptors: the columns of a user-defined type are compared position by position.
\<close>

definition UserDefinedTypeColumns :: "TableDesc \<Rightarrow> ColumnDescriptor list" where
  "UserDefinedTypeColumns d = filter (\<lambda>c. UserDefined (cd_Type c)) (DeletableColumns d)"

definition UserDefinedTypeColsHaveSameVersion :: "TableDesc \<Rightarrow> TableDesc \<Rightarrow> bool" where
  "UserDefinedTypeColsHaveSameVersion d other =
     list_all (\<lambda>(this, that). TypeMetaVersion (cd_Type this) = TypeMetaVersion (cd_Type that))
       (zip (UserDefinedTypeColumns d) (UserDefinedTypeColumns other))"

record DatabaseDesc =
  db_ID :: ID
  db_Name :: string

datatype ResolvedSchemaKind = SchemaPublic | SchemaTemporary | SchemaVirtual | SchemaUserDefined

record ResolvedSchema =
  rs_Kind :: ResolvedSchemaKind
  rs_ID :: ID
  rs_Name :: string

record ResolvedObjectPrefix =
  rp_Database :: DatabaseDesc
  rp_Schema :: ResolvedSchema

record ObjectNamePrefix =
  CatalogName :: string
  SchemaName :: string
  ExplicitCatalog :: bool
  ExplicitSchema :: bool

record TableName = ObjectNamePrefix +
  ObjectName :: string

subsection \<open>Columns of the catalog\<close>

text \<open>
  Modelled from the spec: \<open>cat.Column\<close>, its two initialisers and its accessors are
  declared in package \<open>cat\<close>. A column has an ordinal, a stable ID, a name, a kind, a
  type, nullability, a hidden flag, default and compute expressions and, for a synthesized
  virtual column, the ordinal of the column it derives from (\<open>-1\<close> otherwise). The
  initialisers store their arguments; \<open>InitVirtual\<close> takes no stable ID and no hidden flag,
  and the column it makes has the stable ID 0 and is hidden. A mutation column is a
  write-only or a delete-only one.
\<close>

datatype ColumnKind = Ordinary | WriteOnly | DeleteOnly | System | Virtual

record Column =
  col_ordinal :: nat
  col_stableID :: StableID
  col_name :: string
  col_kind :: ColumnKind
  col_datumType :: types_T
  col_nullable :: bool
  col_hidden :: bool
  col_defaultExpr :: "string option"
  col_computedExpr :: "string option"
  col_invertedSourceColumnOrdinal :: int

definition InitNonVirtual ::
  "nat \<Rightarrow> StableID \<Rightarrow> string \<Rightarrow> ColumnKind \<Rightarrow> types_T \<Rightarrow> bool \<Rightarrow> bool \<Rightarrow>
   string option \<Rightarrow> string option \<Rightarrow> Column" where
  "InitNonVirtual ord sid n k t nullable hidden dflt cexpr =
     \<lparr>col_ordinal = ord, col_stableID = sid, col_name = n, col_kind = k, col_datumType = t,
      col_nullable = nullable, col_hidden = hidden, col_defaultExpr = dflt,
      col_computedExpr = cexpr, col_invertedSourceColumnOrdinal = -1\<rparr>"

definition InitVirtual :: "nat \<Rightarrow> string \<Rightarrow> types_T \<Rightarrow> bool \<Rightarrow> nat \<Rightarrow> Column" where
  "InitVirtual ord n t nullable src =
     \<lparr>col_ordinal = ord, col_stableID = 0, col_name = n, col_kind = Virtual, col_datumType = t,
      col_nullable = nullable, col_hidden = True, col_defaultExpr = None,
      col_computedExpr = None, col_invertedSourceColumnOrdinal = int src\<rparr>"

definition IsNullable :: "Column \<Rightarrow> bool" where
  "IsNullable c = col_nullable c"

definition IsHidden :: "Column \<Rightarrow> bool" where
  "IsHidden c = col_hidden c"

definition IsMutation :: "Column \<Rightarrow> bool" where
  "IsMutation c = (col_kind c = WriteOnly \<or> col_kind c = DeleteOnly)"

text \<open>
  The loop \<open>for i := range columns { colMap[ColumnID(columns[i].ColID())] = i }\<close>: a later
  column with the same ID overwrites an earlier one. The conversion to \<open>descpb.ColumnID\<close>
  keeps the low 32 bits.
\<close>

definition buildColMap :: "Column list \<Rightarrow> (ColumnID \<rightharpoonup> nat)" where
  "buildColMap cols =
     fold (\<lambda>i m. m(ucast (col_stableID (cols ! i)) \<mapsto> i)) [0..<length cols] Map.empty"

text \<open>
  \<open>lookupColumnOrdinal\<close> returns the ordinal and an error; on a miss the ordinal is the zero
  value of the map read, \<open>0\<close>. Every caller in this file drops the error.
\<close>

definition lookupColumnOrdinal :: "(ColumnID \<rightharpoonup> nat) \<Rightarrow> ColumnID \<Rightarrow> nat \<times> bool" where
  "lookupColumnOrdinal colMap colID =
     (case colMap colID of Some col \<Rightarrow> (col, True) | None \<Rightarrow> (0, False))"

subsection \<open>Zone configs\<close>

text \<open>
  \<open>zonepb.ZoneConfig\<close> is declared in package \<open>zonepb\<close>. opt_catalog.go reads its subzones
  and compares whole configs; the other fields (replica counts, range sizes, constraints,
  lease preferences) are kept together as one value of type \<open>'p\<close>.
\<close>

datatype 'p ZoneConfig =
  ZoneConfig (zc_Fields: 'p) (zc_Subzones: "'p Subzone list")
and 'p Subzone =
  Subzone (sz_IndexID: "32 word") (sz_PartitionName: string) (sz_Config: "'p ZoneConfig")

type_synonym zptr = "nat option"

text \<open>
  The store of zone configs: the value at each address and the next free address.
  \<open>&copyZone\<close> of a fresh local takes the next free address.
\<close>

record 'p zstore =
  zs_val :: "nat \<Rightarrow> 'p ZoneConfig"
  zs_next :: nat

definition zalloc :: "'p ZoneConfig \<Rightarrow> 'p zstore \<Rightarrow> nat \<times> 'p zstore" where
  "zalloc z h = (zs_next h, \<lparr>zs_val = (zs_val h)(zs_next h := z), zs_next = Suc (zs_next h)\<rparr>)"

text \<open>
  Modelled from the spec: \<open>(*ZoneConfig).Equal\<close> is generated code of package \<open>zonepb\<close>,
  a deep comparison of the two configs; a nil pointer equals only a nil pointer.
\<close>

definition zone_Equal :: "'p zstore \<Rightarrow> zptr \<Rightarrow> zptr \<Rightarrow> bool" where
  "zone_Equal h this that =
     (case that of
        None \<Rightarrow> this = None
      | Some q \<Rightarrow> (case this of None \<Rightarrow> False | Some p \<Rightarrow> zs_val h p = zs_val h q))"

subsection \<open>The wrappers\<close>

text \<open>
  The structs of opt_catalog.go. A wrapper's pointer back to its owning table (\<open>tab\<close>) is
  left out: a function that follows it takes the table as an argument instead.
\<close>

record optSchema =
  os_database :: DatabaseDesc
  os_schema :: ResolvedSchema
  os_name :: ObjectNamePrefix

record optView =
  ov_desc :: TableDesc

record optSequence =
  oseq_desc :: TableDesc

record optIndex =
  oi_desc :: IndexDescriptor
  oi_zone :: zptr
  oi_storedCols :: "ColumnID list"
  oi_indexOrdinal :: nat
  oi_numCols :: nat
  oi_numKeyCols :: nat
  oi_numLaxKeyCols :: nat
  oi_invertedVirtualColOrd :: int

text \<open>
  \<open>stats.TableStatistic\<close>; \<open>CreatedAt\<close> is a \<open>time.Time\<close>, compared with \<open>!=\<close>, here an
  integer timestamp.
\<close>

record TableStatistic =
  ts_CreatedAt :: int
  ts_ColumnIDs :: "ColumnID list"
  ts_RowCount :: "64 word"
  ts_DistinctCount :: "64 word"
  ts_NullCount :: "64 word"

text \<open>
  A slice \<open>[]*stats.TableStatistic\<close>: the address of its first element and the statistics
  its elements point to. A nil slice has no elements; the code treats it as an empty one.
\<close>

record StatsSlice =
  ss_base :: nat
  ss_elems :: "TableStatistic list"

record optTableStat =
  ots_stat :: TableStatistic
  ots_columnOrdinals :: "nat list"

record optFamily =
  ofam_desc :: ColumnFamilyDescriptor

record optForeignKeyConstraint =
  fk_name :: string
  fk_originTable :: StableID
  fk_originColumns :: "ColumnID list"
  fk_referencedTable :: StableID
  fk_referencedColumns :: "ColumnID list"
  fk_validity :: ConstraintValidity
  fk_match :: nat
  fk_deleteAction :: nat
  fk_updateAction :: nat

text \<open>
  \<open>cat.CheckConstraint\<close>. The constraint is the serialized expression; the expression
  synthesized for an enum column, \<open>col IN (members)\<close>, is kept unserialized.
\<close>

datatype CheckExpr = DeclaredExpr string | EnumInExpr string "string list"

record CheckConstraint =
  cc_Constraint :: CheckExpr
  cc_Validated :: bool

record optTable =
  ot_desc :: TableDesc
  ot_columns :: "Column list"
  ot_indexes :: "optIndex list"
  ot_codec :: nat
  ot_rawStats :: StatsSlice
  ot_stats :: "optTableStat list"
  ot_zone :: zptr
  ot_primaryFamily :: optFamily
  ot_families :: "optFamily list"
  ot_outboundFKs :: "optForeignKeyConstraint list"
  ot_inboundFKs :: "optForeignKeyConstraint list"
  ot_checkConstraints :: "CheckConstraint list"
  ot_colMap :: "ColumnID \<rightharpoonup> nat"

record optVirtualIndex =
  vi_isPrimary :: bool
  vi_desc :: IndexDescriptor
  vi_numCols :: nat
  vi_indexOrdinal :: nat

record optVirtualTable =
  vt_desc :: TableDesc
  vt_columns :: "Column list"
  vt_id :: StableID
  vt_name :: TableName
  vt_indexes :: "optVirtualIndex list"
  vt_colMap :: "ColumnID \<rightharpoonup> nat"

text \<open>
  A \<open>cat.Object\<close> (and a \<open>cat.DataSource\<close>, a \<open>cat.Table\<close>): the dynamic type and the
  pointer. The address is kept for the two wrappers whose \<open>Equals\<close> compares pointers.
\<close>

datatype Object =
    SchemaObj optSchema
  | ViewObj optView
  | SequenceObj optSequence
  | TableObj nat optTable
  | VirtualTableObj nat optVirtualTable

subsection \<open>Schemas, views, sequences\<close>

definition optSchema_ID :: "optSchema \<Rightarrow> StableID" where
  "optSchema_ID os =
     (case rs_Kind (os_schema os) of
        SchemaUserDefined \<Rightarrow> ucast (rs_ID (os_schema os))
      | SchemaTemporary \<Rightarrow> ucast (rs_ID (os_schema os))
      | _ \<Rightarrow> ucast (db_ID (os_database os)))"

definition optSchema_Equals :: "optSchema \<Rightarrow> Object \<Rightarrow> bool" where
  "optSchema_Equals os other =
     (case other of
        SchemaObj otherSchema \<Rightarrow> optSchema_ID os = optSchema_ID otherSchema
      | _ \<Rightarrow> False)"

definition newOptView :: "TableDesc \<Rightarrow> optView" where
  "newOptView desc = \<lparr>ov_desc = desc\<rparr>"

definition optView_ID :: "optView \<Rightarrow> StableID" where
  "optView_ID ov = ucast (td_ID (ov_desc ov))"

definition optView_Equals :: "optView \<Rightarrow> Object \<Rightarrow> bool" where
  "optView_Equals ov other =
     (case other of
        ViewObj otherView \<Rightarrow>
          td_ID (ov_desc ov) = td_ID (ov_desc otherView) \<and>
          td_Version (ov_desc ov) = td_Version (ov_desc otherView)
      | _ \<Rightarrow> False)"

definition newOptSequence :: "TableDesc \<Rightarrow> optSequence" where
  "newOptSequence desc = \<lparr>oseq_desc = desc\<rparr>"

definition optSequence_ID :: "optSequence \<Rightarrow> StableID" where
  "optSequence_ID os = ucast (td_ID (oseq_desc os))"

definition optSequence_Equals :: "optSequence \<Rightarrow> Object \<Rightarrow> bool" where
  "optSequence_Equals os other =
     (case other of
        SequenceObj otherSeq \<Rightarrow>
          td_ID (oseq_desc os) = td_ID (oseq_desc otherSeq) \<and>
          td_Version (oseq_desc os) = td_Version (oseq_desc otherSeq)
      | _ \<Rightarrow> False)"

definition optTable_ID :: "optTable \<Rightarrow> StableID" where
  "optTable_ID ot = ucast (td_ID (ot_desc ot))"

definition optVirtualTable_ID :: "optVirtualTable \<Rightarrow> StableID" where
  "optVirtualTable_ID ot = vt_id ot"

definition optVirtualTable_PostgresDescriptorID :: "optVirtualTable \<Rightarrow> StableID" where
  "optVirtualTable_PostgresDescriptorID ot = ucast (td_ID (vt_desc ot))"

text \<open>The interface call \<open>o.ID()\<close>, dispatched on the dynamic type.\<close>

definition Object_ID :: "Object \<Rightarrow> StableID" where
  "Object_ID ob =
     (case ob of
        SchemaObj s \<Rightarrow> optSchema_ID s
      | ViewObj v \<Rightarrow> optView_ID v
      | SequenceObj s \<Rightarrow> optSequence_ID s
      | TableObj a t \<Rightarrow> optTable_ID t
      | VirtualTableObj a t \<Rightarrow> optVirtualTable_ID t)"

subsection \<open>Foreign keys\<close>

text \<open>
  \<open>OriginColumnOrdinal\<close> and \<open>ReferencedColumnOrdinal\<close>: the check of the table's ID comes
  first and panics with an assertion failure; then the type assertion to \<open>*optTable\<close>, the
  read of the column ID at position \<open>i\<close>, and the lookup, whose error is dropped.
\<close>

definition OriginColumnOrdinal :: "optForeignKeyConstraint \<Rightarrow> Object \<Rightarrow> int \<Rightarrow> error + nat" where
  "OriginColumnOrdinal fk originTable i =
     (if Object_ID originTable \<noteq> fk_originTable fk
      then Inl (AssertionFailed ''invalid table passed to OriginColumnOrdinal'')
      else (case originTable of
              TableObj a tab \<Rightarrow>
                (if i < 0 \<or> int (length (fk_originColumns fk)) \<le> i then Inl IndexOutOfRange
                 else Inr (fst (lookupColumnOrdinal (ot_colMap tab) (fk_originColumns fk ! nat i))))
            | _ \<Rightarrow> Inl TypeAssertionPanic))"

definition ReferencedColumnOrdinal :: "optForeignKeyConstraint \<Rightarrow> Object \<Rightarrow> int \<Rightarrow> error + nat" where
  "ReferencedColumnOrdinal fk referencedTable i =
     (if Object_ID referencedTable \<noteq> fk_referencedTable fk
      then Inl (AssertionFailed ''invalid table passed to ReferencedColumnOrdinal'')
      else (case referencedTable of
              TableObj a tab \<Rightarrow>
                (if i < 0 \<or> int (length (fk_referencedColumns fk)) \<le> i then Inl IndexOutOfRange
                 else Inr (fst (lookupColumnOrdinal (ot_colMap tab) (fk_referencedColumns fk ! nat i))))
            | _ \<Rightarrow> Inl TypeAssertionPanic))"

subsection \<open>Virtual tables\<close>

definition virtualPrimaryIndexDesc :: IndexDescriptor where
  "virtualPrimaryIndexDesc =
     \<lparr>ix_ID = 0, ix_Name = ''primary'', ix_Unique = False, ix_Type = FORWARD,
      ix_ColumnIDs = [], ix_ColumnDirections = [], ix_ExtraColumnIDs = [],
      ix_StoreColumnIDs = [], ix_Predicate = []\<rparr>"

text \<open>
  The loop over \<open>desc.Indexes\<close> of \<open>newOptVirtualTable\<close>; \<open>i\<close> is the loop index. It panics at
  the first index with more than one key column.
\<close>

fun virtualIndexes :: "nat \<Rightarrow> nat \<Rightarrow> IndexDescriptor list \<Rightarrow> error + optVirtualIndex list" where
  "virtualIndexes numCols i [] = Inr []"
| "virtualIndexes numCols i (idxDesc # rest) =
     (if length (ix_ColumnIDs idxDesc) > 1
      then Inl (PanicMsg ''virtual indexes with more than 1 col not supported'')
      else (case virtualIndexes numCols (i + 1) rest of
              Inl e \<Rightarrow> Inl e
            | Inr ixs \<Rightarrow>
                Inr (\<lparr>vi_isPrimary = False, vi_desc = idxDesc, vi_numCols = numCols,
                      vi_indexOrdinal = i + 1\<rparr> # ixs)))"

text \<open>The dummy primary-key column at ordinal 0, of type \<open>types.Int\<close>, then the descriptor's columns.\<close>

definition types_Int :: types_T where
  "types_Int = \<lparr>UserDefined = False, Family = OtherFamily 0, TypeMetaVersion = 0, EnumMembers = []\<rparr>"

definition virtualColumns :: "TableDesc \<Rightarrow> Column list" where
  "virtualColumns desc =
     InitNonVirtual 0 MaxInt64 ''crdb_internal_vtable_pk'' Ordinary types_Int
       False True None None
     # map (\<lambda>i. let d = td_Columns desc ! i in
                InitNonVirtual (i + 1) (ucast (cd_ID d)) (cd_Name d) Ordinary (cd_Type d)
                  (cd_Nullable d) (cd_Hidden d) (cd_DefaultExpr d) (cd_ComputeExpr d))
         [0..<length (td_Columns desc)]"

text \<open>
  \<open>newOptVirtualTable\<close>. \<open>LookupSchema\<close> is the planner's; its result here is the error, or
  the resolved prefix, \<open>None\<close> when the database was not found.
\<close>

definition newOptVirtualTable ::
  "(string \<Rightarrow> string \<Rightarrow> error + ResolvedObjectPrefix option) \<Rightarrow> TableDesc \<Rightarrow> TableName \<Rightarrow>
   error + optVirtualTable" where
  "newOptVirtualTable LookupSchema desc name =
     (let id0 = (ucast (td_ID desc) :: StableID);
          idr = (if CatalogName name \<noteq> []
                 then (case LookupSchema (CatalogName name) (SchemaName name) of
                         Inl err \<Rightarrow> Inl err
                       | Inr None \<Rightarrow> Inr (id0 OR push_bit 32 (ucast MaxUint32))
                       | Inr (Some prefix) \<Rightarrow>
                           Inr (id0 OR push_bit 32 (ucast (db_ID (rp_Database prefix)))))
                 else Inr id0)
      in case idr of
           Inl err \<Rightarrow> Inl err
         | Inr sid \<Rightarrow>
             (let columns = virtualColumns desc;
                  colMap = buildColMap columns;
                  name' = name\<lparr>ExplicitSchema := True, ExplicitCatalog := True\<rparr>;
                  primary = \<lparr>vi_isPrimary = True, vi_desc = virtualPrimaryIndexDesc,
                             vi_numCols = length columns, vi_indexOrdinal = 0\<rparr>
              in case virtualIndexes (length columns) 0 (td_Indexes desc) of
                   Inl e \<Rightarrow> Inl e
                 | Inr ixs \<Rightarrow>
                     Inr \<lparr>vt_desc = desc, vt_columns = columns, vt_id = sid, vt_name = name',
                          vt_indexes = primary # ixs, vt_colMap = colMap\<rparr>))"

definition optVirtualIndex_KeyColumnCount :: "optVirtualIndex \<Rightarrow> nat" where
  "optVirtualIndex_KeyColumnCount oi = 2"

definition optVirtualIndex_LaxKeyColumnCount :: "optVirtualIndex \<Rightarrow> nat" where
  "optVirtualIndex_LaxKeyColumnCount oi = 2"

definition optVirtualTable_Equals :: "nat \<Rightarrow> optVirtualTable \<Rightarrow> Object \<Rightarrow> bool" where
  "optVirtualTable_Equals a ot other =
     (case other of
        VirtualTableObj b otherTable \<Rightarrow>
          (if a = b then True
           else if vt_id ot \<noteq> vt_id otherTable \<or>
                   td_Version (vt_desc ot) \<noteq> td_Version (vt_desc otherTable) then False
           else True)
      | _ \<Rightarrow> False)"

subsection \<open>Collaborators\<close>

text \<open>
  What opt_catalog.go calls and does not define: \<open>InheritFromParent\<close> of package \<open>zonepb\<close>
  (the child config and the parent, giving the child with its unset fields filled in), the
  reserved name, ID and type of the MVCC timestamp column (constants of package \<open>colinfo\<close>),
  the address of the global \<open>emptyZoneConfig\<close>, the SQL codec, and the planner's and the caches' lookups:
  \<open>LookupSchema\<close> (the error, or the prefix, \<open>None\<close> for a database that was not found),
  \<open>LookupTableByID\<close> (given the planner's \<open>avoidCachedDescriptors\<close>; the descriptor comes
  with its address), \<open>GetTableStats\<close> and \<open>GetZoneConfigForObject\<close> (given the system
  config). Every function below takes them as one parameter.
\<close>

record 'p env =
  InheritFromParent :: "'p ZoneConfig \<Rightarrow> 'p ZoneConfig \<Rightarrow> 'p ZoneConfig"
  MVCCTimestampColumnName :: string
  MVCCTimestampColumnID :: ColumnID
  MVCCTimestampColumnType :: types_T
  emptyZoneConfig :: nat
  Codec :: nat
  LookupSchema :: "string \<Rightarrow> string \<Rightarrow> error + ResolvedObjectPrefix option"
  LookupTableByID :: "bool \<Rightarrow> ID \<Rightarrow> error + nat \<times> TableDesc"
  GetTableStats :: "ID \<Rightarrow> error + StatsSlice"
  GetZoneConfigForObject :: "nat \<Rightarrow> 32 word \<Rightarrow> error + zptr"

record Flags =
  AvoidDescriptorCaches :: bool
  NoTableStats :: bool

subsection \<open>Indexes of a table\<close>

text \<open>
  The loop of \<open>optIndex.init\<close> over the declared key columns of a unique index: it stops at
  the first nullable column. The ordinal of a column ID that the table does not know is 0,
  since the error of the lookup is dropped; \<open>tab.Column(ord)\<close> panics out of range.
\<close>

fun keyColsNotNull :: "Column list \<Rightarrow> (ColumnID \<rightharpoonup> nat) \<Rightarrow> ColumnID list \<Rightarrow> error + bool" where
  "keyColsNotNull columns colMap [] = Inr True"
| "keyColsNotNull columns colMap (c # rest) =
     (let ord = fst (lookupColumnOrdinal colMap c) in
      if length columns \<le> ord then Inl IndexOutOfRange
      else if IsNullable (columns ! ord) then Inr False
      else keyColsNotNull columns colMap rest)"

text \<open>
  \<open>optIndex.init\<close>. \<open>columns\<close> and \<open>colMap\<close> are those of the table at the time of the call;
  \<open>isPrimary\<close> is the outcome of \<open>desc == &tab.desc.PrimaryIndex\<close>. \<open>make\<close> panics on a
  negative capacity. \<open>int(id)\<close> of a \<open>uint64\<close> is \<open>sint\<close>, of a \<open>uint32\<close> is \<open>uint\<close>.
\<close>

definition optIndex_init ::
  "Column list \<Rightarrow> (ColumnID \<rightharpoonup> nat) \<Rightarrow> bool \<Rightarrow> nat \<Rightarrow> IndexDescriptor \<Rightarrow> zptr \<Rightarrow> int \<Rightarrow>
   error + optIndex" where
  "optIndex_init columns colMap isPrimary indexOrdinal desc zone invertedVirtualColOrd =
     (if isPrimary \<and> length columns < length (ix_ColumnIDs desc)
      then Inl (PanicMsg ''makeslice: cap out of range'')
      else
        (let storedCols =
               (if isPrimary
                then map (\<lambda>c. ucast (col_stableID c))
                       (filter (\<lambda>c. sint (col_stableID c) \<notin> set (map uint (ix_ColumnIDs desc)))
                          columns)
                else ix_StoreColumnIDs desc);
             numCols =
               (if isPrimary then length columns
                else length (ix_ColumnIDs desc) + length (ix_ExtraColumnIDs desc) +
                     length (ix_StoreColumnIDs desc));
             counts =
               (if ix_Unique desc
                then (case keyColsNotNull columns colMap (ix_ColumnIDs desc) of
                        Inl e \<Rightarrow> Inl e
                      | Inr notNull \<Rightarrow>
                          (if notNull
                           then Inr (length (ix_ColumnIDs desc), length (ix_ColumnIDs desc))
                           else Inr (length (ix_ColumnIDs desc),
                                     length (ix_ColumnIDs desc) + length (ix_ExtraColumnIDs desc))))
                else Inr (length (ix_ColumnIDs desc) + length (ix_ExtraColumnIDs desc),
                          length (ix_ColumnIDs desc) + length (ix_ExtraColumnIDs desc)))
         in case counts of
              Inl e \<Rightarrow> Inl e
            | Inr (numLaxKeyCols, numKeyCols) \<Rightarrow>
                Inr \<lparr>oi_desc = desc, oi_zone = zone, oi_storedCols = storedCols,
                     oi_indexOrdinal = indexOrdinal, oi_numCols = numCols,
                     oi_numKeyCols = numKeyCols, oi_numLaxKeyCols = numLaxKeyCols,
                     oi_invertedVirtualColOrd = invertedVirtualColOrd\<rparr>))"

definition optIndex_KeyColumnCount :: "optIndex \<Rightarrow> nat" where
  "optIndex_KeyColumnCount oi = oi_numKeyCols oi"

definition optIndex_LaxKeyColumnCount :: "optIndex \<Rightarrow> nat" where
  "optIndex_LaxKeyColumnCount oi = oi_numLaxKeyCols oi"

definition optIndex_IsUnique :: "optIndex \<Rightarrow> bool" where
  "optIndex_IsUnique oi = ix_Unique (oi_desc oi)"

subsection \<open>Building a table\<close>

text \<open>
  The first loop of \<open>newOptTable\<close>: one column for each deletable column of the descriptor,
  the public ones ordinary, then the write-only and the delete-only ones.
\<close>

definition descriptorColumns :: "TableDesc \<Rightarrow> Column list" where
  "descriptorColumns desc =
     (let colDescs = DeletableColumns desc;
          numOrdinary = length (td_Columns desc);
          numWritable = length (WritableColumns desc)
      in map (\<lambda>i. let d = colDescs ! i;
                       kind = (if i < numOrdinary then Ordinary
                               else if i < numWritable then WriteOnly
                               else DeleteOnly)
                   in InitNonVirtual i (ucast (cd_ID d)) (cd_Name d) kind (cd_Type d)
                        (cd_Nullable d) (cd_Hidden d) (cd_DefaultExpr d) (cd_ComputeExpr d))
           [0..<length colDescs])"

text \<open>
  The capacity of \<open>ot.columns\<close>: the deletable columns, one for the system column, one for
  each inverted secondary index.
\<close>

definition columnCapacity :: "TableDesc \<Rightarrow> nat" where
  "columnCapacity desc =
     length (DeletableColumns desc) + 1 +
     length (filter (\<lambda>ix. ix_Type ix = INVERTED) (DeletableIndexes desc))"

text \<open>
  The closure \<open>newColumn\<close>: the slice grows by one within its capacity, and the ordinal of
  the new slot is returned; \<open>ot.columns[:ordinal+1]\<close> panics beyond the capacity. The caller
  initialises the slot.
\<close>

definition newColumn :: "nat \<Rightarrow> Column list \<Rightarrow> error + nat" where
  "newColumn cap columns =
     (let ordinal = length columns in
      if cap < ordinal + 1 then Inl IndexOutOfRange else Inr ordinal)"

text \<open>
  The MVCC timestamp system column, skipped when \<open>FindColumnByName\<close> finds a column of its
  name.
\<close>

definition addSystemColumn :: "'p env \<Rightarrow> TableDesc \<Rightarrow> nat \<Rightarrow> Column list \<Rightarrow> error + Column list" where
  "addSystemColumn env desc cap columns =
     (case FindColumnByName desc (MVCCTimestampColumnName env) of
        Some found \<Rightarrow> Inr columns
      | None \<Rightarrow>
          (case newColumn cap columns of
             Inl e \<Rightarrow> Inl e
           | Inr ord \<Rightarrow>
               Inr (columns @
                    [InitNonVirtual ord (ucast (MVCCTimestampColumnID env))
                       (MVCCTimestampColumnName env) System (MVCCTimestampColumnType env)
                       True True None None])))"

text \<open>
  The zone of one index: the loop over the subzones of the table's zone. Each subzone of
  this index that names no partition is copied, inherits from the table's zone, and the
  address of the copy becomes the zone of the index; the last such subzone wins.
\<close>

fun indexZone ::
  "'p env \<Rightarrow> nat \<Rightarrow> IndexID \<Rightarrow> 'p Subzone list \<Rightarrow> zptr \<Rightarrow> 'p zstore \<Rightarrow> zptr \<times> 'p zstore" where
  "indexZone env tblZone ixid [] idxZone h = (idxZone, h)"
| "indexZone env tblZone ixid (subzone # rest) idxZone h =
     (if sz_IndexID subzone = ixid \<and> sz_PartitionName subzone = []
      then (let copyZone = InheritFromParent env (sz_Config subzone) (zs_val h tblZone);
                (a, h') = zalloc copyZone h
            in indexZone env tblZone ixid rest (Some a) h')
      else indexZone env tblZone ixid rest idxZone h)"

text \<open>The zero value of \<open>cat.Column\<close>, which a fresh slot of \<open>ot.columns\<close> holds.\<close>

definition zeroColumn :: Column where
  "zeroColumn =
     \<lparr>col_ordinal = 0, col_stableID = 0, col_name = [], col_kind = Ordinary,
      col_datumType = \<lparr>UserDefined = False, Family = OtherFamily 0, TypeMetaVersion = 0,
                       EnumMembers = []\<rparr>,
      col_nullable = False, col_hidden = False, col_defaultExpr = None,
      col_computedExpr = None, col_invertedSourceColumnOrdinal = 0\<rparr>"

text \<open>
  The body of the loop \<open>for i := range ot.indexes\<close> of \<open>newOptTable\<close> once the zone of
  the index is known: the index and the columns of the table after it. An inverted index
  adds a virtual column for its key, named and typed after the column its first key column
  resolves to, and is initialised after the column was added; \<open>slots\<close> are the columns with
  the fresh slot, which \<open>ot.Column\<close> can already read.
\<close>

definition indexStep ::
  "nat \<Rightarrow> (ColumnID \<rightharpoonup> nat) \<Rightarrow> nat \<Rightarrow> IndexDescriptor \<Rightarrow> zptr \<Rightarrow> Column list \<Rightarrow>
   error + optIndex \<times> Column list" where
  "indexStep cap colMap i idxDesc idxZone columns =
     (if ix_Type idxDesc = INVERTED
      then (case ix_ColumnIDs idxDesc of
              [] \<Rightarrow> Inl IndexOutOfRange
            | c0 # cs \<Rightarrow>
                (let invertedSourceColOrdinal = fst (lookupColumnOrdinal colMap c0) in
                 case newColumn cap columns of
                   Inl e \<Rightarrow> Inl e
                 | Inr virtualColOrd \<Rightarrow>
                     (let slots = columns @ [zeroColumn] in
                      if length slots \<le> invertedSourceColOrdinal then Inl IndexOutOfRange
                      else
                        (let src = slots ! invertedSourceColOrdinal;
                             virtualCol =
                               InitVirtual virtualColOrd (col_name src @ ''_inverted_key'')
                                 (col_datumType src) False invertedSourceColOrdinal;
                             columns' = columns @ [virtualCol]
                         in case optIndex_init columns' colMap (i = 0) i idxDesc idxZone
                                   (int virtualColOrd) of
                              Inl e \<Rightarrow> Inl e
                            | Inr oi \<Rightarrow> Inr (oi, columns')))))
      else (case optIndex_init columns colMap (i = 0) i idxDesc idxZone (-1) of
              Inl e \<Rightarrow> Inl e
            | Inr oi \<Rightarrow> Inr (oi, columns)))"

text \<open>
  The loop \<open>for i := range ot.indexes\<close>, from index \<open>i\<close> on; index 0 is the primary index.
\<close>

fun buildIndexes ::
  "'p env \<Rightarrow> nat \<Rightarrow> (ColumnID \<rightharpoonup> nat) \<Rightarrow> nat \<Rightarrow> nat \<Rightarrow> IndexDescriptor list \<Rightarrow> Column list \<Rightarrow>
   'p zstore \<Rightarrow> error + optIndex list \<times> Column list \<times> 'p zstore" where
  "buildIndexes env cap colMap tblZone i [] columns h = Inr ([], columns, h)"
| "buildIndexes env cap colMap tblZone i (idxDesc # rest) columns h =
     (let (idxZone, h1) =
            indexZone env tblZone (ix_ID idxDesc) (zc_Subzones (zs_val h tblZone))
              (Some tblZone) h
      in case indexStep cap colMap i idxDesc idxZone columns of
           Inl e \<Rightarrow> Inl e
         | Inr (oi, columns1) \<Rightarrow>
             (case buildIndexes env cap colMap tblZone (i + 1) rest columns1 h1 of
                Inl e \<Rightarrow> Inl e
              | Inr (ois, columns2, h2) \<Rightarrow> Inr (oi # ois, columns2, h2)))"

definition outboundFK :: "StableID \<Rightarrow> ForeignKeyDescriptor \<Rightarrow> optForeignKeyConstraint" where
  "outboundFK tableID fk =
     \<lparr>fk_name = fkd_Name fk, fk_originTable = tableID,
      fk_originColumns = fkd_OriginColumnIDs fk,
      fk_referencedTable = ucast (fkd_ReferencedTableID fk),
      fk_referencedColumns = fkd_ReferencedColumnIDs fk,
      fk_validity = fkd_Validity fk, fk_match = fkd_Match fk,
      fk_deleteAction = fkd_OnDelete fk, fk_updateAction = fkd_OnUpdate fk\<rparr>"

definition inboundFK :: "StableID \<Rightarrow> ForeignKeyDescriptor \<Rightarrow> optForeignKeyConstraint" where
  "inboundFK tableID fk =
     \<lparr>fk_name = fkd_Name fk, fk_originTable = ucast (fkd_OriginTableID fk),
      fk_originColumns = fkd_OriginColumnIDs fk,
      fk_referencedTable = tableID,
      fk_referencedColumns = fkd_ReferencedColumnIDs fk,
      fk_validity = fkd_Validity fk, fk_match = fkd_Match fk,
      fk_deleteAction = fkd_OnDelete fk, fk_updateAction = fkd_OnUpdate fk\<rparr>"

text \<open>
  The checks synthesized for the columns of a user-defined enum type; mutation columns get
  none.
\<close>

definition synthesizedChecks :: "Column list \<Rightarrow> CheckConstraint list" where
  "synthesizedChecks columns =
     concat (map (\<lambda>col.
        if IsMutation col then []
        else if UserDefined (col_datumType col) \<and> Family (col_datumType col) = EnumFamily
        then [\<lparr>cc_Constraint = EnumInExpr (col_name col) (EnumMembers (col_datumType col)),
               cc_Validated = True\<rparr>]
        else []) columns)"

definition declaredChecks :: "TableDesc \<Rightarrow> CheckConstraint list" where
  "declaredChecks desc =
     map (\<lambda>c. \<lparr>cc_Constraint = DeclaredExpr (ck_Expr c),
               cc_Validated = (ck_Validity c = Validated)\<rparr>) (ActiveChecks desc)"

text \<open>
  \<open>optTableStat.init\<close>: the ordinals of the statistic's columns, \<open>None\<close> (its \<open>ok = false\<close>)
  when the table does not have one of them. It never returns an error.
\<close>

fun statOrdinals :: "(ColumnID \<rightharpoonup> nat) \<Rightarrow> ColumnID list \<Rightarrow> nat list option" where
  "statOrdinals colMap [] = Some []"
| "statOrdinals colMap (c # rest) =
     (case colMap c of
        None \<Rightarrow> None
      | Some ord \<Rightarrow>
          (case statOrdinals colMap rest of None \<Rightarrow> None | Some ords \<Rightarrow> Some (ord # ords)))"

definition optTableStat_init :: "(ColumnID \<rightharpoonup> nat) \<Rightarrow> TableStatistic \<Rightarrow> optTableStat option" where
  "optTableStat_init colMap stat =
     (case statOrdinals colMap (ts_ColumnIDs stat) of
        None \<Rightarrow> None
      | Some ords \<Rightarrow> Some \<lparr>ots_stat = stat, ots_columnOrdinals = ords\<rparr>)"

text \<open>The last loop of \<open>newOptTable\<close>: the statistics whose columns all exist, in order.\<close>

fun buildStats :: "(ColumnID \<rightharpoonup> nat) \<Rightarrow> TableStatistic list \<Rightarrow> optTableStat list" where
  "buildStats colMap [] = []"
| "buildStats colMap (s # rest) =
     (case optTableStat_init colMap s of
        None \<Rightarrow> buildStats colMap rest
      | Some os \<Rightarrow> os # buildStats colMap rest)"

text \<open>
  \<open>newOptTable\<close>, on the store of zone configs: the table and the store after the build.
  A nil \<open>tblZone\<close> panics at \<open>tblZone.Subzones\<close>; a descriptor without a family panics at
  \<open>desc.Families[0]\<close>.
\<close>

definition newOptTable ::
  "'p env \<Rightarrow> 'p zstore \<Rightarrow> TableDesc \<Rightarrow> nat \<Rightarrow> StatsSlice \<Rightarrow> zptr \<Rightarrow>
   error + optTable \<times> 'p zstore" where
  "newOptTable env h desc codec stats tblZone =
     (let cap = columnCapacity desc;
          secondaryIndexes = DeletableIndexes desc
      in case addSystemColumn env desc cap (descriptorColumns desc) of
           Inl e \<Rightarrow> Inl e
         | Inr columns0 \<Rightarrow>
             (let colMap = buildColMap columns0 in
              case tblZone of
                None \<Rightarrow> Inl NilDereference
              | Some tz \<Rightarrow>
                  (case buildIndexes env cap colMap tz 0 (td_PrimaryIndex desc # secondaryIndexes)
                          columns0 h of
                     Inl e \<Rightarrow> Inl e
                   | Inr (indexes, columns, h') \<Rightarrow>
                       (case td_Families desc of
                          [] \<Rightarrow> Inl IndexOutOfRange
                        | f0 # fs \<Rightarrow>
                            Inr (\<lparr>ot_desc = desc, ot_columns = columns, ot_indexes = indexes,
                                  ot_codec = codec, ot_rawStats = stats,
                                  ot_stats = buildStats colMap (ss_elems stats),
                                  ot_zone = tblZone,
                                  ot_primaryFamily = \<lparr>ofam_desc = f0\<rparr>,
                                  ot_families = map (\<lambda>f. \<lparr>ofam_desc = f\<rparr>) fs,
                                  ot_outboundFKs =
                                    map (outboundFK (ucast (td_ID desc))) (td_OutboundFKs desc),
                                  ot_inboundFKs =
                                    map (inboundFK (ucast (td_ID desc))) (td_InboundFKs desc),
                                  ot_checkConstraints =
                                    declaredChecks desc @ synthesizedChecks columns,
                                  ot_colMap = colMap\<rparr>, h')))))"

subsection \<open>Staleness and equality of tables\<close>

definition isStale :: "'p zstore \<Rightarrow> optTable \<Rightarrow> TableDesc \<Rightarrow> StatsSlice \<Rightarrow> zptr \<Rightarrow> bool" where
  "isStale h ot rawDesc tableStats zone =
     (if length (ss_elems tableStats) \<noteq> length (ss_elems (ot_rawStats ot)) then True
      else if length (ss_elems tableStats) > 0 \<and> ss_base tableStats \<noteq> ss_base (ot_rawStats ot)
      then True
      else if \<not> zone_Equal h zone (ot_zone ot) then True
      else if \<not> UserDefinedTypeColsHaveSameVersion (ot_desc ot) rawDesc then True
      else False)"

text \<open>
  \<open>optTableStat.equals\<close>; the loop over the ordinals runs after the lengths were found
  equal.
\<close>

fun ordinalsEqual :: "nat list \<Rightarrow> nat list \<Rightarrow> bool" where
  "ordinalsEqual [] others = True"
| "ordinalsEqual (c # cs) [] = False"
| "ordinalsEqual (c # cs) (d # ds) = (if c \<noteq> d then False else ordinalsEqual cs ds)"

definition optTableStat_equals :: "optTableStat \<Rightarrow> optTableStat \<Rightarrow> bool" where
  "optTableStat_equals os other =
     (if ts_CreatedAt (ots_stat os) \<noteq> ts_CreatedAt (ots_stat other) \<or>
         length (ots_columnOrdinals os) \<noteq> length (ots_columnOrdinals other) then False
      else ordinalsEqual (ots_columnOrdinals os) (ots_columnOrdinals other))"

text \<open>The loop over the statistics of \<open>optTable.Equals\<close>, which runs on lists of one length.\<close>

fun statsEqual :: "optTableStat list \<Rightarrow> optTableStat list \<Rightarrow> bool" where
  "statsEqual [] others = True"
| "statsEqual (s # ss) [] = False"
| "statsEqual (s # ss) (t # ts) = (if \<not> optTableStat_equals s t then False else statsEqual ss ts)"

text \<open>
  The loop over the indexes of \<open>optTable.Equals\<close>; \<open>otherTable.indexes[i]\<close> panics when the
  other table has fewer indexes. The deep comparison is skipped when both zones are the
  pointers of the previous comparison.
\<close>

fun zonesEqual :: "'p zstore \<Rightarrow> optIndex list \<Rightarrow> optIndex list \<Rightarrow> zptr \<Rightarrow> zptr \<Rightarrow> error + bool" where
  "zonesEqual h [] others prevLeftZone prevRightZone = Inr True"
| "zonesEqual h (l # ls) [] prevLeftZone prevRightZone = Inl IndexOutOfRange"
| "zonesEqual h (l # ls) (r # rs) prevLeftZone prevRightZone =
     (let leftZone = oi_zone l; rightZone = oi_zone r in
      if leftZone = prevLeftZone \<and> rightZone = prevRightZone
      then zonesEqual h ls rs prevLeftZone prevRightZone
      else if \<not> zone_Equal h leftZone rightZone then Inr False
      else zonesEqual h ls rs leftZone rightZone)"

text \<open>\<open>optTable.Equals\<close>; \<open>a\<close> is the address of the receiver.\<close>

definition optTable_Equals :: "'p zstore \<Rightarrow> nat \<Rightarrow> optTable \<Rightarrow> Object \<Rightarrow> error + bool" where
  "optTable_Equals h a ot other =
     (case other of
        TableObj b otherTable \<Rightarrow>
          (if a = b then Inr True
           else if td_ID (ot_desc ot) \<noteq> td_ID (ot_desc otherTable) \<or>
                   td_Version (ot_desc ot) \<noteq> td_Version (ot_desc otherTable) then Inr False
           else if length (ot_stats ot) \<noteq> length (ot_stats otherTable) then Inr False
           else if \<not> statsEqual (ot_stats ot) (ot_stats otherTable) then Inr False
           else if \<not> UserDefinedTypeColsHaveSameVersion (ot_desc ot) (ot_desc otherTable)
           then Inr False
           else zonesEqual h (ot_indexes ot) (ot_indexes otherTable) None None)
      | _ \<Rightarrow> Inr False)"

subsection \<open>The catalog and its cache\<close>

text \<open>
  \<open>optCatalog\<close> with what it reaches through its planner: the planner's
  \<open>avoidCachedDescriptors\<close>, the system config (\<open>None\<close> when the node does not have it yet),
  the cache of data sources, keyed by the address of the descriptor, the store of zone
  configs, and the next free address for a wrapper.
\<close>

record 'p optCatalog =
  oc_avoidCachedDescriptors :: bool
  oc_cfg :: "nat option"
  oc_dataSources :: "nat \<rightharpoonup> Object"
  oc_zones :: "'p zstore"
  oc_nextObject :: nat

definition getZoneConfig :: "'p env \<Rightarrow> 'p optCatalog \<Rightarrow> TableDesc \<Rightarrow> error + zptr" where
  "getZoneConfig env oc desc =
     (case oc_cfg oc of
        None \<Rightarrow> Inr (Some (emptyZoneConfig env))
      | Some cfg \<Rightarrow>
          (if td_Virtual desc then Inr (Some (emptyZoneConfig env))
           else (case GetZoneConfigForObject env cfg (td_ID desc) of
                   Inl err \<Rightarrow> Inl err
                 | Inr None \<Rightarrow> Inr (Some (emptyZoneConfig env))
                 | Inr (Some zone) \<Rightarrow> Inr (Some zone))))"

definition nilStats :: StatsSlice where
  "nilStats = \<lparr>ss_base = 0, ss_elems = []\<rparr>"

definition dataSourceForTable ::
  "'p env \<Rightarrow> 'p optCatalog \<Rightarrow> Flags \<Rightarrow> nat \<Rightarrow> TableDesc \<Rightarrow> TableName \<Rightarrow>
   (error + Object) \<times> 'p optCatalog" where
  "dataSourceForTable env oc flags descAddr desc name =
     (if td_Virtual desc
      then (case newOptVirtualTable (LookupSchema env) desc name of
              Inl e \<Rightarrow> (Inl e, oc)
            | Inr vt \<Rightarrow>
                (Inr (VirtualTableObj (oc_nextObject oc) vt),
                 oc\<lparr>oc_nextObject := Suc (oc_nextObject oc)\<rparr>))
      else
        (let tableStats =
               (if \<not> NoTableStats flags
                then (case GetTableStats env (td_ID desc) of
                        Inl err \<Rightarrow> nilStats
                      | Inr s \<Rightarrow> s)
                else nilStats)
         in case getZoneConfig env oc desc of
              Inl err \<Rightarrow> (Inl err, oc)
            | Inr zoneConfig \<Rightarrow>
                (let build =
                       (case newOptTable env (oc_zones oc) desc (Codec env) tableStats zoneConfig of
                          Inl err \<Rightarrow> (Inl err, oc)
                        | Inr (ot, h') \<Rightarrow>
                            (let ds = TableObj (oc_nextObject oc) ot in
                             (Inr ds,
                              oc\<lparr>oc_dataSources := (oc_dataSources oc)(descAddr \<mapsto> ds),
                                 oc_zones := h',
                                 oc_nextObject := Suc (oc_nextObject oc)\<rparr>)))
                 in case oc_dataSources oc descAddr of
                      None \<Rightarrow> build
                    | Some (TableObj a cached) \<Rightarrow>
                        (if \<not> isStale (oc_zones oc) cached desc tableStats zoneConfig
                         then (Inr (TableObj a cached), oc)
                         else build)
                    | Some other \<Rightarrow> (Inl TypeAssertionPanic, oc))))"

definition dataSourceForDesc ::
  "'p env \<Rightarrow> 'p optCatalog \<Rightarrow> Flags \<Rightarrow> nat \<Rightarrow> TableDesc \<Rightarrow> TableName \<Rightarrow>
   (error + Object) \<times> 'p optCatalog" where
  "dataSourceForDesc env oc flags descAddr desc name =
     (if td_Kind desc = KindTable \<or> td_Kind desc = KindMaterializedView
      then dataSourceForTable env oc flags descAddr desc name
      else (case oc_dataSources oc descAddr of
              Some ds \<Rightarrow> (Inr ds, oc)
            | None \<Rightarrow>
                (if td_Kind desc = KindView
                 then (let ds = ViewObj (newOptView desc) in
                       (Inr ds, oc\<lparr>oc_dataSources := (oc_dataSources oc)(descAddr \<mapsto> ds)\<rparr>))
                 else if td_Kind desc = KindSequence
                 then (let ds = SequenceObj (newOptSequence desc) in
                       (Inr ds, oc\<lparr>oc_dataSources := (oc_dataSources oc)(descAddr \<mapsto> ds)\<rparr>))
                 else (Inl (AssertionFailed ''unexpected table descriptor''), oc))))"

definition HasAddingTableError :: "error \<Rightarrow> bool" where
  "HasAddingTableError err = (err = AddingTableError)"

definition emptyTableName :: TableName where
  "emptyTableName =
     \<lparr>CatalogName = [], SchemaName = [], ExplicitCatalog = False, ExplicitSchema = False,
      ObjectName = []\<rparr>"

text \<open>
  \<open>ResolveDataSourceByID\<close>: the data source or the error, the flag \<open>isAdding\<close>, and the
  catalog afterwards. The deferred function restores the planner's
  \<open>avoidCachedDescriptors\<close> on every way out.
\<close>

definition ResolveDataSourceByID ::
  "'p env \<Rightarrow> 'p optCatalog \<Rightarrow> Flags \<Rightarrow> StableID \<Rightarrow> (error + Object) \<times> bool \<times> 'p optCatalog" where
  "ResolveDataSourceByID env oc flags dataSourceID =
     (let prev = oc_avoidCachedDescriptors oc;
          oc1 = (if AvoidDescriptorCaches flags then oc\<lparr>oc_avoidCachedDescriptors := True\<rparr>
                 else oc);
          (res, isAdding, oc2) =
            (case LookupTableByID env (oc_avoidCachedDescriptors oc1) (ucast dataSourceID) of
               Inl err \<Rightarrow>
                 (let isAdding = HasAddingTableError err in
                  if err = ErrDescriptorNotFound \<or> isAdding
                  then (Inl (UndefinedRelation dataSourceID), isAdding, oc1)
                  else (Inl err, False, oc1))
             | Inr (descAddr, tableLookup) \<Rightarrow>
                 (let (ds, oc') =
                        dataSourceForDesc env oc1
                          \<lparr>AvoidDescriptorCaches = False, NoTableStats = False\<rparr>
                          descAddr tableLookup emptyTableName
                  in (ds, False, oc')))
      in (res, isAdding,
          if AvoidDescriptorCaches flags then oc2\<lparr>oc_avoidCachedDescriptors := prev\<rparr>
          else oc2))"

subsection \<open>What the theorems speak of\<close>

text \<open>
  The column that an ID among the key columns of an index stands for in a built table: the
  column at the ordinal that \<open>lookupColumnOrdinal\<close> gives, as \<open>optIndex.Column\<close> resolves
  it. An index has a nullable declared key column when one of its \<open>ColumnIDs\<close> stands for a
  nullable column.
\<close>

definition keyColumn :: "optTable \<Rightarrow> ColumnID \<Rightarrow> Column" where
  "keyColumn ot c = ot_columns ot ! fst (lookupColumnOrdinal (ot_colMap ot) c)"

definition declaredKeyNullable :: "optTable \<Rightarrow> IndexDescriptor \<Rightarrow> bool" where
  "declaredKeyNullable ot d = list_ex (\<lambda>c. IsNullable (keyColumn ot c)) (ix_ColumnIDs d)"

text \<open>
  The same, read off the descriptor: a deletable column whose ID is among the key columns
  of the index is nullable.
\<close>

definition descriptorKeyNullable :: "TableDesc \<Rightarrow> IndexDescriptor \<Rightarrow> bool" where
  "descriptorKeyNullable desc d =
     list_ex (\<lambda>col. cd_ID col \<in> set (ix_ColumnIDs d) \<and> cd_Nullable col) (DeletableColumns desc)"

text \<open>
  A descriptor whose index refers to its columns as a validated descriptor does: the
  deletable columns have distinct IDs, none of them the ID of the system column, and every
  key column of the index is one of them.
\<close>

definition keyColumnsResolve :: "'p env \<Rightarrow> TableDesc \<Rightarrow> IndexDescriptor \<Rightarrow> bool" where
  "keyColumnsResolve env desc d =
     (distinct (map cd_ID (DeletableColumns desc)) \<and>
      MVCCTimestampColumnID env \<notin> set (map cd_ID (DeletableColumns desc)) \<and>
      set (ix_ColumnIDs d) \<subseteq> set (map cd_ID (DeletableColumns desc)))"

text \<open>
  The zone config in force for an index: the last subzone of the table's zone that is for
  this index and for no partition, inheriting from the table's zone, or else the table's
  zone itself.
\<close>

definition indexZoneValue :: "'p env \<Rightarrow> 'p ZoneConfig \<Rightarrow> IndexID \<Rightarrow> 'p ZoneConfig" where
  "indexZoneValue env tblZoneVal ixid =
     (case filter (\<lambda>s. sz_IndexID s = ixid \<and> sz_PartitionName s = []) (zc_Subzones tblZoneVal) of
        [] \<Rightarrow> tblZoneVal
      | s # ss \<Rightarrow> InheritFromParent env (sz_Config (last (s # ss))) tblZoneVal)"

text \<open>
  The system column as \<open>newOptTable\<close> initialises it: its ordinal is the number of
  deletable columns, and the literals \<open>true, true\<close> of the call make it nullable and hidden.
\<close>

definition systemColumn :: "'p env \<Rightarrow> TableDesc \<Rightarrow> Column" where
  "systemColumn env desc =
     InitNonVirtual (length (DeletableColumns desc)) (ucast (MVCCTimestampColumnID env))
       (MVCCTimestampColumnName env) System (MVCCTimestampColumnType env) True True None None"

text \<open>
  The counts of an index over descriptor \<open>d\<close>, given whether one of its key columns is
  nullable: the lax key is the declared key columns of a unique index and all key columns
  otherwise; the key is the declared key columns of a unique index without a nullable key
  column and all key columns otherwise.
\<close>

definition indexCounts :: "bool \<Rightarrow> IndexDescriptor \<Rightarrow> optIndex \<Rightarrow> bool" where
  "indexCounts nullable d oi =
     (oi_desc oi = d \<and>
      oi_numLaxKeyCols oi =
        (if ix_Unique d then length (ix_ColumnIDs d)
         else length (ix_ColumnIDs d) + length (ix_ExtraColumnIDs d)) \<and>
      oi_numKeyCols oi =
        (if ix_Unique d \<and> \<not> nullable then length (ix_ColumnIDs d)
         else length (ix_ColumnIDs d) + length (ix_ExtraColumnIDs d)))"

text \<open>The index descriptors of a table in the order of \<open>ot.indexes\<close>.\<close>

definition indexDescriptors :: "TableDesc \<Rightarrow> IndexDescriptor list" where
  "indexDescriptors desc = td_PrimaryIndex desc # DeletableIndexes desc"

text \<open>
  One store extends another when it keeps every allocated address and its value: what
  allocation does to the store.
\<close>

definition zextends :: "'p zstore \<Rightarrow> 'p zstore \<Rightarrow> bool" where
  "zextends h h' = (zs_next h \<le> zs_next h' \<and> (\<forall>p < zs_next h. zs_val h' p = zs_val h p))"

definition zallocated :: "'p zstore \<Rightarrow> zptr \<Rightarrow> bool" where
  "zallocated h z = (case z of None \<Rightarrow> True | Some p \<Rightarrow> p < zs_next h)"

text \<open>
  Two descriptors of one snapshot of a table: they agree on the ID and the version, on the
  IDs of their deletable columns, on whether a column has the reserved name of the system
  column, on the IDs of their indexes, and on the versions of their user-defined column
  types.
\<close>

definition sameSnapshot :: "'p env \<Rightarrow> TableDesc \<Rightarrow> TableDesc \<Rightarrow> bool" where
  "sameSnapshot env d d' =
     (td_ID d = td_ID d' \<and> td_Version d = td_Version d' \<and>
      map cd_ID (DeletableColumns d) = map cd_ID (DeletableColumns d') \<and>
      (FindColumnByName d (MVCCTimestampColumnName env) = None) =
        (FindColumnByName d' (MVCCTimestampColumnName env) = None) \<and>
      map ix_ID (indexDescriptors d) = map ix_ID (indexDescriptors d') \<and>
      UserDefinedTypeColsHaveSameVersion d d')"

subsection \<open>Examples\<close>

text \<open>
  A table \<open>t (a int not null, b int, c int not null)\<close> with the primary key \<open>(a)\<close>, a unique
  index on \<open>(b)\<close> and a plain index on \<open>(c)\<close>; both secondary indexes carry the primary key
  as extra columns. A second descriptor of the same ID and version adds a column \<open>m\<close> of an
  enum type; a third differs from it in the version of that type only.
\<close>

definition ex_colA :: ColumnDescriptor where
  "ex_colA = \<lparr>cd_ID = 1, cd_Name = ''a'', cd_Type = types_Int, cd_Nullable = False,
              cd_Hidden = False, cd_DefaultExpr = None, cd_ComputeExpr = None\<rparr>"

definition ex_colB :: ColumnDescriptor where
  "ex_colB = \<lparr>cd_ID = 2, cd_Name = ''b'', cd_Type = types_Int, cd_Nullable = True,
              cd_Hidden = False, cd_DefaultExpr = None, cd_ComputeExpr = None\<rparr>"

definition ex_colC :: ColumnDescriptor where
  "ex_colC = \<lparr>cd_ID = 3, cd_Name = ''c'', cd_Type = types_Int, cd_Nullable = False,
              cd_Hidden = False, cd_DefaultExpr = None, cd_ComputeExpr = None\<rparr>"

definition ex_mood :: "32 word \<Rightarrow> types_T" where
  "ex_mood v = \<lparr>UserDefined = True, Family = EnumFamily, TypeMetaVersion = v,
                EnumMembers = [''x'', ''y'']\<rparr>"

definition ex_colM :: "32 word \<Rightarrow> ColumnDescriptor" where
  "ex_colM v = \<lparr>cd_ID = 4, cd_Name = ''m'', cd_Type = ex_mood v, cd_Nullable = True,
                cd_Hidden = False, cd_DefaultExpr = None, cd_ComputeExpr = None\<rparr>"

definition ex_primary :: IndexDescriptor where
  "ex_primary = \<lparr>ix_ID = 1, ix_Name = ''primary'', ix_Unique = True, ix_Type = FORWARD,
                 ix_ColumnIDs = [1], ix_ColumnDirections = [ASC], ix_ExtraColumnIDs = [],
                 ix_StoreColumnIDs = [], ix_Predicate = []\<rparr>"

definition ex_idxB :: IndexDescriptor where
  "ex_idxB = \<lparr>ix_ID = 2, ix_Name = ''t_b_key'', ix_Unique = True, ix_Type = FORWARD,
              ix_ColumnIDs = [2], ix_ColumnDirections = [ASC], ix_ExtraColumnIDs = [1],
              ix_StoreColumnIDs = [], ix_Predicate = []\<rparr>"

definition ex_idxC :: IndexDescriptor where
  "ex_idxC = \<lparr>ix_ID = 3, ix_Name = ''t_c_idx'', ix_Unique = False, ix_Type = FORWARD,
              ix_ColumnIDs = [3], ix_ColumnDirections = [ASC], ix_ExtraColumnIDs = [1],
              ix_StoreColumnIDs = [], ix_Predicate = []\<rparr>"

definition ex_desc :: TableDesc where
  "ex_desc =
     \<lparr>td_ID = 53, td_Version = 1, td_Name = ''t'', td_ParentID = 50, td_Kind = KindTable,
      td_Virtual = False, td_ViewQuery = [],
      td_Columns = [ex_colA, ex_colB, ex_colC],
      td_WriteOnlyColumns = [], td_DeleteOnlyColumns = [],
      td_PrimaryIndex = ex_primary, td_Indexes = [ex_idxB, ex_idxC],
      td_WriteOnlyIndexes = [], td_DeleteOnlyIndexes = [],
      td_Families = [\<lparr>fam_ID = 0, fam_Name = ''primary'', fam_ColumnIDs = [1, 2, 3]\<rparr>],
      td_Checks = [], td_OutboundFKs = [], td_InboundFKs = []\<rparr>"

definition ex_descM :: "32 word \<Rightarrow> TableDesc" where
  "ex_descM v = ex_desc\<lparr>td_Columns := [ex_colA, ex_colB, ex_colC, ex_colM v]\<rparr>"

text \<open>
  A virtual table \<open>pg_catalog.pg_class\<close> with one single-column index, a variant of it with
  a two-column index, and a view.
\<close>

definition ex_vdesc :: TableDesc where
  "ex_vdesc =
     \<lparr>td_ID = 4294967100, td_Version = 1, td_Name = ''pg_class'', td_ParentID = 0,
      td_Kind = KindTable, td_Virtual = True, td_ViewQuery = [],
      td_Columns = [ex_colA, ex_colB],
      td_WriteOnlyColumns = [], td_DeleteOnlyColumns = [],
      td_PrimaryIndex = ex_primary, td_Indexes = [ex_idxB\<lparr>ix_ExtraColumnIDs := []\<rparr>],
      td_WriteOnlyIndexes = [], td_DeleteOnlyIndexes = [],
      td_Families = [], td_Checks = [], td_OutboundFKs = [], td_InboundFKs = []\<rparr>"

definition ex_vdesc2 :: TableDesc where
  "ex_vdesc2 = ex_vdesc\<lparr>td_Indexes := [ex_idxB\<lparr>ix_ColumnIDs := [1, 2]\<rparr>]\<rparr>"

definition ex_view :: TableDesc where
  "ex_view = ex_desc\<lparr>td_ID := 60, td_Name := ''v'', td_Kind := KindView,
                     td_ViewQuery := ''SELECT a FROM t''\<rparr>"

definition ex_name :: "string \<Rightarrow> TableName" where
  "ex_name db =
     \<lparr>CatalogName = db, SchemaName = ''pg_catalog'', ExplicitCatalog = False,
      ExplicitSchema = False, ObjectName = ''pg_class''\<rparr>"

definition ex_prefix :: "ID \<Rightarrow> string \<Rightarrow> ResolvedObjectPrefix" where
  "ex_prefix dbid n =
     \<lparr>rp_Database = \<lparr>db_ID = dbid, db_Name = n\<rparr>,
      rp_Schema = \<lparr>rs_Kind = SchemaVirtual, rs_ID = 4294967000, rs_Name = ''pg_catalog''\<rparr>\<rparr>"

text \<open>
  One statistic on column \<open>a\<close>, in a slice at address 7 and in a slice of the same content
  at address 8. The zone of the table, at address 1, has a subzone for index 2; address 0
  holds the empty zone config.
\<close>

definition ex_stat :: TableStatistic where
  "ex_stat = \<lparr>ts_CreatedAt = 1000, ts_ColumnIDs = [1], ts_RowCount = 10,
              ts_DistinctCount = 10, ts_NullCount = 0\<rparr>"

definition ex_stats :: "nat \<Rightarrow> StatsSlice" where
  "ex_stats base = \<lparr>ss_base = base, ss_elems = [ex_stat]\<rparr>"

definition ex_zones :: "nat zstore" where
  "ex_zones =
     \<lparr>zs_val = (\<lambda>a. if a = 1 then ZoneConfig 3 [Subzone 2 [] (ZoneConfig 0 [])]
                     else ZoneConfig 0 []),
      zs_next = 2\<rparr>"

text \<open>
  Collaborators for the examples: databases \<open>db1\<close> (ID 50) and \<open>db2\<close> (ID 51) exist;
  descriptor 53 is the table, 60 the view, 54 is being added, the lookup of 55 fails, and
  no other descriptor exists.
\<close>

definition ex_env :: "nat env" where
  "ex_env =
     \<lparr>InheritFromParent =
        (\<lambda>child parent.
           ZoneConfig (if zc_Fields child = 0 then zc_Fields parent else zc_Fields child)
             (zc_Subzones child)),
      MVCCTimestampColumnName = ''crdb_internal_mvcc_timestamp'',
      MVCCTimestampColumnID = MaxUint32,
      MVCCTimestampColumnType = types_Int,
      emptyZoneConfig = 0,
      Codec = 0,
      LookupSchema =
        (\<lambda>db sc. if db = ''db1'' then Inr (Some (ex_prefix 50 ''db1''))
                  else if db = ''db2'' then Inr (Some (ex_prefix 51 ''db2''))
                  else Inr None),
      LookupTableByID =
        (\<lambda>avoid i. if i = 53 then Inr (100, ex_desc)
                    else if i = 60 then Inr (101, ex_view)
                    else if i = 54 then Inl AddingTableError
                    else if i = 55 then Inl (ExternalError 7)
                    else Inl ErrDescriptorNotFound),
      GetTableStats = (\<lambda>i. Inr (ex_stats 7)),
      GetZoneConfigForObject = (\<lambda>cfg i. Inr (Some 1))\<rparr>"

definition ex_catalog :: "nat optCatalog" where
  "ex_catalog =
     \<lparr>oc_avoidCachedDescriptors = False, oc_cfg = Some 0, oc_dataSources = Map.empty,
      oc_zones = ex_zones, oc_nextObject = 200\<rparr>"

definition ex_flags :: Flags where
  "ex_flags = \<lparr>AvoidDescriptorCaches = True, NoTableStats = False\<rparr>"

text \<open>The tables built from the examples, one after the other on the same store.\<close>

definition ex_build :: "TableDesc \<Rightarrow> nat zstore \<Rightarrow> error + optTable \<times> nat zstore" where
  "ex_build desc h = newOptTable ex_env h desc 0 (ex_stats 7) (Some 1)"

definition ex_table :: "TableDesc \<Rightarrow> nat zstore \<Rightarrow> optTable" where
  "ex_table desc h = fst (projr (ex_build desc h))"

definition ex_store :: "TableDesc \<Rightarrow> nat zstore \<Rightarrow> nat zstore" where
  "ex_store desc h = snd (projr (ex_build desc h))"

definition ex_schema :: "ResolvedSchemaKind \<Rightarrow> ID \<Rightarrow> string \<Rightarrow> optSchema" where
  "ex_schema k i n =
     \<lparr>os_database = \<lparr>db_ID = 50, db_Name = ''db1''\<rparr>,
      os_schema = \<lparr>rs_Kind = k, rs_ID = i, rs_Name = n\<rparr>,
      os_name = \<lparr>CatalogName = ''db1'', SchemaName = n, ExplicitCatalog = True,
                 ExplicitSchema = True\<rparr>\<rparr>"

definition ex_fk :: optForeignKeyConstraint where
  "ex_fk =
     \<lparr>fk_name = ''fk'', fk_originTable = 53, fk_originColumns = [2],
      fk_referencedTable = 70, fk_referencedColumns = [1],
      fk_validity = Validated, fk_match = 0, fk_deleteAction = 0, fk_updateAction = 0\<rparr>"

section \<open>Theorems\<close>

subsection \<open>Words and sums\<close>

lemma ucast_down_up: "(ucast (ucast (a :: 32 word) :: 64 word) :: 32 word) = a"
  by (rule bit_word_eqI) (auto simp: bit_simps)




lemma sum_projr: "\<not> isl x \<Longrightarrow> x = Inr (projr x)"
  by (cases x) simp_all

lemma sum_projr_pair: "\<not> isl x \<Longrightarrow> x = Inr (fst (projr x), snd (projr x))"
  by (cases x) simp_all


subsection \<open>Equality of schemas\<close>

text \<open>
  C10. \<open>Equals\<close> of a schema is true exactly when the other object is a schema of the same
  stable ID. The stable ID of a user-defined or temporary schema is its own ID; a virtual
  or public schema has none and takes the ID of its database. So two virtual or public
  schemas are equal exactly when they are of the same database, whatever their names, kinds
  and own IDs, and two user-defined or temporary schemas exactly when their own IDs are
  equal.
\<close>

theorem schema_equality_by_stable_id:
  "(optSchema_Equals os other \<longleftrightarrow>
      (\<exists>otherSchema. other = SchemaObj otherSchema \<and> optSchema_ID os = optSchema_ID otherSchema)) \<and>
   (rs_Kind (os_schema os) \<in> {SchemaUserDefined, SchemaTemporary} \<longrightarrow>
      optSchema_ID os = ucast (rs_ID (os_schema os))) \<and>
   (rs_Kind (os_schema os) \<in> {SchemaVirtual, SchemaPublic} \<longrightarrow>
      optSchema_ID os = ucast (db_ID (os_database os))) \<and>
   (rs_Kind (os_schema s1) \<in> {SchemaVirtual, SchemaPublic} \<longrightarrow>
    rs_Kind (os_schema s2) \<in> {SchemaVirtual, SchemaPublic} \<longrightarrow>
      (optSchema_Equals s1 (SchemaObj s2) \<longleftrightarrow>
         db_ID (os_database s1) = db_ID (os_database s2))) \<and>
   (rs_Kind (os_schema s1) \<in> {SchemaUserDefined, SchemaTemporary} \<longrightarrow>
    rs_Kind (os_schema s2) \<in> {SchemaUserDefined, SchemaTemporary} \<longrightarrow>
      (optSchema_Equals s1 (SchemaObj s2) \<longleftrightarrow>
         rs_ID (os_schema s1) = rs_ID (os_schema s2)))"
proof -
  have inj: "(ucast (x :: 32 word) :: 64 word) = ucast y \<longleftrightarrow> x = y" for x y
    by (metis ucast_down_up)
  have e: "optSchema_Equals os other \<longleftrightarrow>
      (\<exists>otherSchema. other = SchemaObj otherSchema \<and> optSchema_ID os = optSchema_ID otherSchema)"
    by (auto simp: optSchema_Equals_def split: Object.splits)
  have u: "rs_Kind (os_schema s) \<in> {SchemaUserDefined, SchemaTemporary} \<Longrightarrow>
           optSchema_ID s = ucast (rs_ID (os_schema s))" for s
    by (auto simp: optSchema_ID_def)
  have v: "rs_Kind (os_schema s) \<in> {SchemaVirtual, SchemaPublic} \<Longrightarrow>
           optSchema_ID s = ucast (db_ID (os_database s))" for s
    by (auto simp: optSchema_ID_def)
  have q: "optSchema_Equals s1 (SchemaObj s2) \<longleftrightarrow> optSchema_ID s1 = optSchema_ID s2"
    by (simp add: optSchema_Equals_def)
  show ?thesis
    using e u [of os] v [of os] u [of s1] u [of s2] v [of s1] v [of s2]
    by (simp add: q inj)
qed

theorem schema_equality_by_stable_id_witness:
  "optSchema_Equals (ex_schema SchemaPublic 29 ''public'')
     (SchemaObj (ex_schema SchemaVirtual 4294967000 ''pg_catalog'')) \<and>
   optSchema_ID (ex_schema SchemaPublic 29 ''public'') = 50 \<and>
   \<not> optSchema_Equals (ex_schema SchemaPublic 29 ''public'')
       (SchemaObj ((ex_schema SchemaPublic 29 ''public'')
                     \<lparr>os_database := \<lparr>db_ID = 51, db_Name = ''db2''\<rparr>\<rparr>)) \<and>
   \<not> optSchema_Equals (ex_schema SchemaUserDefined 80 ''s1'')
       (SchemaObj (ex_schema SchemaUserDefined 81 ''s2''))"
proof -
  let ?p = "ex_schema SchemaPublic 29 ''public''"
  let ?v = "ex_schema SchemaVirtual 4294967000 ''pg_catalog''"
  let ?o = "?p\<lparr>os_database := \<lparr>db_ID = 51, db_Name = ''db2''\<rparr>\<rparr>"
  let ?a = "ex_schema SchemaUserDefined 80 ''s1''"
  let ?b = "ex_schema SchemaUserDefined 81 ''s2''"
  have kp: "rs_Kind (os_schema ?p) \<in> {SchemaVirtual, SchemaPublic}"
    by (simp add: ex_schema_def)
  have kv: "rs_Kind (os_schema ?v) \<in> {SchemaVirtual, SchemaPublic}"
    by (simp add: ex_schema_def)
  have ko: "rs_Kind (os_schema ?o) \<in> {SchemaVirtual, SchemaPublic}"
    by (simp add: ex_schema_def)
  have ka: "rs_Kind (os_schema ?a) \<in> {SchemaUserDefined, SchemaTemporary}"
    by (simp add: ex_schema_def)
  have kb: "rs_Kind (os_schema ?b) \<in> {SchemaUserDefined, SchemaTemporary}"
    by (simp add: ex_schema_def)
  have d: "db_ID (os_database ?p) = db_ID (os_database ?v)"
    "db_ID (os_database ?p) \<noteq> db_ID (os_database ?o)"
    "rs_ID (os_schema ?a) \<noteq> rs_ID (os_schema ?b)"
    "(ucast (db_ID (os_database ?p)) :: 64 word) = 50"
    by (simp_all add: ex_schema_def)
  note t = schema_equality_by_stable_id
  have "optSchema_Equals ?p (SchemaObj ?v)"
    using t [THEN conjunct2, THEN conjunct2, THEN conjunct2, THEN conjunct1, rule_format, OF kp kv]
      d(1) by simp
  moreover have "optSchema_ID ?p = 50"
    using t [THEN conjunct2, THEN conjunct2, THEN conjunct1, rule_format, OF kp] d(4) by simp
  moreover have "\<not> optSchema_Equals ?p (SchemaObj ?o)"
    using t [THEN conjunct2, THEN conjunct2, THEN conjunct2, THEN conjunct1, rule_format, OF kp ko]
      d(2) by simp
  moreover have "\<not> optSchema_Equals ?a (SchemaObj ?b)"
    using t [THEN conjunct2, THEN conjunct2, THEN conjunct2, THEN conjunct2, rule_format, OF ka kb]
      d(3) by simp
  ultimately show ?thesis by simp
qed

subsection \<open>Foreign-key ordinals against the wrong table\<close>

text \<open>
  C8. For every constraint, every object passed as the table and every position, also one
  out of range: when the stable ID of the table is not the origin table of the constraint,
  \<open>OriginColumnOrdinal\<close> panics with an assertion failure and returns no ordinal; the same
  for \<open>ReferencedColumnOrdinal\<close> and the referenced table.
\<close>

theorem fk_ordinal_wrong_table:
  "(Object_ID t \<noteq> fk_originTable fk \<longrightarrow>
      (\<exists>msg. OriginColumnOrdinal fk t i = Inl (AssertionFailed msg))) \<and>
   (Object_ID t \<noteq> fk_referencedTable fk \<longrightarrow>
      (\<exists>msg. ReferencedColumnOrdinal fk t i = Inl (AssertionFailed msg)))"
  by (simp add: OriginColumnOrdinal_def ReferencedColumnOrdinal_def)

theorem fk_ordinal_wrong_table_witness:
  "(\<exists>msg. OriginColumnOrdinal ex_fk (ViewObj (newOptView ex_view)) 0 =
           Inl (AssertionFailed msg)) \<and>
   (\<exists>msg. ReferencedColumnOrdinal ex_fk (TableObj 1 (ex_table ex_desc ex_zones)) 7 =
           Inl (AssertionFailed msg))"
proof -
  have o: "Object_ID (ViewObj (newOptView ex_view)) \<noteq> fk_originTable ex_fk"
    by code_simp
  have r: "Object_ID (TableObj 1 (ex_table ex_desc ex_zones)) \<noteq> fk_referencedTable ex_fk"
    by code_simp
  from fk_ordinal_wrong_table [THEN conjunct1, rule_format, OF o]
       fk_ordinal_wrong_table [THEN conjunct2, rule_format, OF r]
  show ?thesis by (rule conjI)
qed

subsection \<open>Indexes of a virtual table\<close>

lemma virtualIndexes_length:
  "virtualIndexes n i ds = Inr ixs \<Longrightarrow> length ixs = length ds"
  by (induction ds arbitrary: i ixs) (auto split: if_splits sum.splits)

lemma virtualIndexes_reject:
  "\<exists>d \<in> set ds. 1 < length (ix_ColumnIDs d) \<Longrightarrow>
   virtualIndexes n i ds = Inl (PanicMsg ''virtual indexes with more than 1 col not supported'')"
proof (induction ds arbitrary: i)
  case Nil
  then show ?case by simp
next
  case (Cons a ds)
  show ?case
  proof (cases "1 < length (ix_ColumnIDs a)")
    case True
    then show ?thesis by simp
  next
    case False
    with Cons.prems have "\<exists>d \<in> set ds. 1 < length (ix_ColumnIDs d)" by auto
    from Cons.IH [OF this] False show ?thesis by simp
  qed
qed

text \<open>
  C7. A built virtual table has the primary index and one index for each index of the
  descriptor, and each of them reports 2 key columns and 2 lax key columns. When an index
  of the descriptor has more than one key column, no table is built: the builder panics, or
  the lookup of the schema has failed before.
\<close>

theorem virtual_index_key_counts:
  "(newOptVirtualTable lk desc name = Inr vt \<longrightarrow>
      length (vt_indexes vt) = 1 + length (td_Indexes desc) \<and>
      (\<forall>oi \<in> set (vt_indexes vt).
         optVirtualIndex_KeyColumnCount oi = 2 \<and> optVirtualIndex_LaxKeyColumnCount oi = 2)) \<and>
   ((\<exists>d \<in> set (td_Indexes desc). 1 < length (ix_ColumnIDs d)) \<longrightarrow>
      (\<exists>e. newOptVirtualTable lk desc name = Inl e \<and>
           (e = PanicMsg ''virtual indexes with more than 1 col not supported'' \<or>
            lk (CatalogName name) (SchemaName name) = Inl e)))"
proof (intro conjI impI)
  assume b: "newOptVirtualTable lk desc name = Inr vt"
  then obtain ixs where
    "virtualIndexes (length (virtualColumns desc)) 0 (td_Indexes desc) = Inr ixs"
    "vt_indexes vt = \<lparr>vi_isPrimary = True, vi_desc = virtualPrimaryIndexDesc,
        vi_numCols = length (virtualColumns desc), vi_indexOrdinal = 0\<rparr> # ixs"
    by (auto simp: newOptVirtualTable_def Let_def split: sum.splits if_splits option.splits)
  then show "length (vt_indexes vt) = 1 + length (td_Indexes desc)"
    by (simp add: virtualIndexes_length)
next
  show "\<forall>oi \<in> set (vt_indexes vt).
         optVirtualIndex_KeyColumnCount oi = 2 \<and> optVirtualIndex_LaxKeyColumnCount oi = 2"
    by (simp add: optVirtualIndex_KeyColumnCount_def optVirtualIndex_LaxKeyColumnCount_def)
next
  assume "\<exists>d \<in> set (td_Indexes desc). 1 < length (ix_ColumnIDs d)"
  then have r: "virtualIndexes (length (virtualColumns desc)) 0 (td_Indexes desc) =
      Inl (PanicMsg ''virtual indexes with more than 1 col not supported'')"
    by (rule virtualIndexes_reject)
  show "\<exists>e. newOptVirtualTable lk desc name = Inl e \<and>
           (e = PanicMsg ''virtual indexes with more than 1 col not supported'' \<or>
            lk (CatalogName name) (SchemaName name) = Inl e)"
    using r by (auto simp: newOptVirtualTable_def Let_def split: sum.splits if_splits option.splits)
qed

theorem virtual_index_key_counts_witness:
  "length (vt_indexes (projr (newOptVirtualTable (LookupSchema ex_env) ex_vdesc (ex_name ''db1''))))
     = 2 \<and>
   list_all (\<lambda>oi. optVirtualIndex_KeyColumnCount oi = 2 \<and> optVirtualIndex_LaxKeyColumnCount oi = 2)
     (vt_indexes (projr (newOptVirtualTable (LookupSchema ex_env) ex_vdesc (ex_name ''db1'')))) \<and>
   (\<exists>e. newOptVirtualTable (LookupSchema ex_env) ex_vdesc2 (ex_name ''db1'') = Inl e)"
proof -
  let ?b = "newOptVirtualTable (LookupSchema ex_env) ex_vdesc (ex_name ''db1'')"
  have b: "?b = Inr (projr ?b)" by (rule sum_projr) code_simp
  have n: "1 + length (td_Indexes ex_vdesc) = 2" by (simp add: ex_vdesc_def)
  have m: "\<exists>d \<in> set (td_Indexes ex_vdesc2). 1 < length (ix_ColumnIDs d)"
    by (simp add: ex_vdesc2_def ex_vdesc_def ex_idxB_def)
  from virtual_index_key_counts [THEN conjunct1, rule_format, OF b] n
       virtual_index_key_counts [THEN conjunct2, rule_format, OF m,
         of "LookupSchema ex_env" "ex_name ''db1''"]
  show ?thesis by (auto simp: list_all_iff)
qed

subsection \<open>The stable ID of a virtual table\<close>



subsection \<open>Resolving a data source by its ID\<close>

text \<open>
  C9, as stated, asks for an undefined-relation error when the descriptor is neither
  missing nor being added. The code returns that error when it is one of the two: with the
  lookup of descriptor 55 failing for another reason, the call returns the error of the
  lookup; with the lookup of descriptor 60 succeeding, it returns the view.
\<close>

theorem ResolveDataSourceByID_counterexample:
  "LookupTableByID ex_env True 55 = Inl (ExternalError 7) \<and>
   fst (ResolveDataSourceByID ex_env ex_catalog ex_flags 55) = Inl (ExternalError 7) \<and>
   fst (ResolveDataSourceByID ex_env ex_catalog ex_flags 55) \<noteq> Inl (UndefinedRelation 55) \<and>
   LookupTableByID ex_env True 60 = Inr (101, ex_view) \<and>
   fst (ResolveDataSourceByID ex_env ex_catalog ex_flags 60) = Inr (ViewObj (newOptView ex_view))"
  by (simp add: ResolveDataSourceByID_def ex_env_def ex_catalog_def ex_flags_def
        HasAddingTableError_def dataSourceForDesc_def ex_view_def Let_def)

text \<open>
  C9, amended. The lookup is made with the planner's \<open>avoidCachedDescriptors\<close> set when the
  flags ask for it. When it reports that the descriptor does not exist, or that the table
  is being added, the call fails with an undefined-relation error for the ID asked for; in
  these two cases, and in no other, the error of the call is not the error of the lookup.
  \<open>isAdding\<close> tells the two apart: it is set exactly when the lookup reports a table being
  added. Any other error of the lookup is returned as it is. When the lookup succeeds, the
  outcome is that of \<open>dataSourceForDesc\<close> for the descriptor found, which for a view or a
  sequence is the cached data source or a new one.
\<close>

theorem ResolveDataSourceByID_outcomes:
  assumes "ResolveDataSourceByID env oc flags dataSourceID = (res, isAdding, oc')"
    and "lk = LookupTableByID env (AvoidDescriptorCaches flags \<or> oc_avoidCachedDescriptors oc)
                (ucast dataSourceID)"
  shows "res =
           (case lk of
              Inl err \<Rightarrow>
                if err = ErrDescriptorNotFound \<or> err = AddingTableError
                then Inl (UndefinedRelation dataSourceID) else Inl err
            | Inr (descAddr, desc) \<Rightarrow>
                fst (dataSourceForDesc env
                       (oc\<lparr>oc_avoidCachedDescriptors :=
                             AvoidDescriptorCaches flags \<or> oc_avoidCachedDescriptors oc\<rparr>)
                       \<lparr>AvoidDescriptorCaches = False, NoTableStats = False\<rparr>
                       descAddr desc emptyTableName)) \<and>
         (isAdding \<longleftrightarrow> lk = Inl AddingTableError) \<and>
         (lk = Inl ErrDescriptorNotFound \<longrightarrow>
            res = Inl (UndefinedRelation dataSourceID) \<and> \<not> isAdding) \<and>
         (lk = Inl AddingTableError \<longrightarrow>
            res = Inl (UndefinedRelation dataSourceID) \<and> isAdding) \<and>
         (\<forall>err. lk = Inl err \<longrightarrow>
            (res \<noteq> Inl err \<longleftrightarrow> err = ErrDescriptorNotFound \<or> err = AddingTableError)) \<and>
         (\<forall>descAddr desc. lk = Inr (descAddr, desc) \<longrightarrow>
            td_Kind desc = KindView \<or> td_Kind desc = KindSequence \<longrightarrow>
            res = Inr (case oc_dataSources oc descAddr of
                         Some ds \<Rightarrow> ds
                       | None \<Rightarrow>
                           if td_Kind desc = KindView then ViewObj (newOptView desc)
                           else SequenceObj (newOptSequence desc)))"
proof -
  let ?oc1 = "if AvoidDescriptorCaches flags then oc\<lparr>oc_avoidCachedDescriptors := True\<rparr> else oc"
  let ?oc2 = "oc\<lparr>oc_avoidCachedDescriptors :=
                  AvoidDescriptorCaches flags \<or> oc_avoidCachedDescriptors oc\<rparr>"
  let ?fl = "\<lparr>AvoidDescriptorCaches = False, NoTableStats = False\<rparr>"
  have a: "oc_avoidCachedDescriptors ?oc1 =
           (AvoidDescriptorCaches flags \<or> oc_avoidCachedDescriptors oc)"
    by simp
  have o: "?oc1 = ?oc2"
    by simp
  show ?thesis
  proof (cases lk)
    case (Inl err)
    then have l: "LookupTableByID env (oc_avoidCachedDescriptors ?oc1) (ucast dataSourceID) = Inl err"
      using assms(2) a by simp
    have r: "res = (if err = ErrDescriptorNotFound \<or> err = AddingTableError
                    then Inl (UndefinedRelation dataSourceID) else Inl err)"
      and f: "isAdding \<longleftrightarrow> err = AddingTableError"
      using assms(1)
      unfolding ResolveDataSourceByID_def Let_def l
      by (auto simp: HasAddingTableError_def split: if_splits)
    show ?thesis
      unfolding Inl using r f by auto
  next
    case (Inr p)
    obtain descAddr desc where p: "p = (descAddr, desc)" by (cases p)
    have l: "LookupTableByID env (oc_avoidCachedDescriptors ?oc2) (ucast dataSourceID)
             = Inr (descAddr, desc)"
      using assms(2) Inr p by simp
    have r: "res = fst (dataSourceForDesc env ?oc2 ?fl descAddr desc emptyTableName)"
      and f: "\<not> isAdding"
      using assms(1)
      unfolding ResolveDataSourceByID_def Let_def o l
      by (auto split: prod.splits if_splits)
    have v: "fst (dataSourceForDesc env ?oc2 ?fl descAddr desc emptyTableName) =
             Inr (case oc_dataSources oc descAddr of
                    Some ds \<Rightarrow> ds
                  | None \<Rightarrow>
                      if td_Kind desc = KindView then ViewObj (newOptView desc)
                      else SequenceObj (newOptSequence desc))"
      if "td_Kind desc = KindView \<or> td_Kind desc = KindSequence"
      using that by (auto simp: dataSourceForDesc_def Let_def split: option.splits)
    show ?thesis
      unfolding Inr p using r f v by simp
  qed
qed

theorem ResolveDataSourceByID_outcomes_witness:
  "fst (ResolveDataSourceByID ex_env ex_catalog ex_flags 54) = Inl (UndefinedRelation 54) \<and>
   fst (snd (ResolveDataSourceByID ex_env ex_catalog ex_flags 54)) \<and>
   fst (ResolveDataSourceByID ex_env ex_catalog ex_flags 99) = Inl (UndefinedRelation 99) \<and>
   \<not> fst (snd (ResolveDataSourceByID ex_env ex_catalog ex_flags 99)) \<and>
   fst (ResolveDataSourceByID ex_env ex_catalog ex_flags 55) = Inl (ExternalError 7) \<and>
   \<not> fst (snd (ResolveDataSourceByID ex_env ex_catalog ex_flags 55)) \<and>
   fst (ResolveDataSourceByID ex_env ex_catalog ex_flags 60) = Inr (ViewObj (newOptView ex_view)) \<and>
   \<not> fst (snd (ResolveDataSourceByID ex_env ex_catalog ex_flags 60))"
proof -
  let ?r = "\<lambda>i. ResolveDataSourceByID ex_env ex_catalog ex_flags i"
  let ?a = "AvoidDescriptorCaches ex_flags \<or> oc_avoidCachedDescriptors ex_catalog"
  have r: "?r i = (fst (?r i), fst (snd (?r i)), snd (snd (?r i)))" for i by simp
  have l54: "LookupTableByID ex_env ?a (ucast (54 :: 64 word)) = Inl AddingTableError"
    by (simp add: ex_env_def)
  have l99: "LookupTableByID ex_env ?a (ucast (99 :: 64 word)) = Inl ErrDescriptorNotFound"
    by (simp add: ex_env_def)
  have l55: "LookupTableByID ex_env ?a (ucast (55 :: 64 word)) = Inl (ExternalError 7)"
    by (simp add: ex_env_def)
  have l60: "LookupTableByID ex_env ?a (ucast (60 :: 64 word)) = Inr (101, ex_view)"
    by (simp add: ex_env_def)
  have k: "td_Kind ex_view = KindView"
    by (simp add: ex_view_def)
  have c: "oc_dataSources ex_catalog 101 = None"
    by (simp add: ex_catalog_def)
  note t = ResolveDataSourceByID_outcomes [OF r refl]
  from t [of 54] l54
  have "fst (?r 54) = Inl (UndefinedRelation 54) \<and> fst (snd (?r 54))" by simp
  moreover from t [of 99] l99
  have "fst (?r 99) = Inl (UndefinedRelation 99) \<and> \<not> fst (snd (?r 99))" by simp
  moreover from t [of 55] l55
  have "fst (?r 55) = Inl (ExternalError 7) \<and> \<not> fst (snd (?r 55))" by simp
  moreover have "fst (?r 60) = Inr (ViewObj (newOptView ex_view))"
    using t [of 60, THEN conjunct2, THEN conjunct2, THEN conjunct2, THEN conjunct2,
             THEN conjunct2, rule_format, OF l60 disjI1 [OF k]]
    by (simp add: c k)
  moreover have "\<not> fst (snd (?r 60))"
    using t [of 60, THEN conjunct2, THEN conjunct1] l60 by simp
  ultimately show ?thesis by simp
qed

subsection \<open>What a build returns\<close>

lemma newOptTable_Inr:
  assumes "newOptTable env h desc codec stats tblZone = Inr (ot, h')"
  obtains columns0 tz f0 fs where
    "addSystemColumn env desc (columnCapacity desc) (descriptorColumns desc) = Inr columns0"
    "tblZone = Some tz"
    "buildIndexes env (columnCapacity desc) (buildColMap columns0) tz 0 (indexDescriptors desc)
       columns0 h = Inr (ot_indexes ot, ot_columns ot, h')"
    "td_Families desc = f0 # fs"
    "ot_desc ot = desc" "ot_rawStats ot = stats" "ot_zone ot = tblZone"
    "ot_colMap ot = buildColMap columns0"
    "ot_stats ot = buildStats (buildColMap columns0) (ss_elems stats)"
  using assms
  unfolding newOptTable_def Let_def indexDescriptors_def
  by (auto simp del: buildIndexes.simps
           split: sum.splits option.splits list.splits prod.splits)

lemma ex_build_Inr:
  "\<not> isl (ex_build desc h) \<Longrightarrow>
   newOptTable ex_env h desc 0 (ex_stats 7) (Some 1) = Inr (ex_table desc h, ex_store desc h)"
  unfolding ex_table_def ex_store_def
  by (cases "ex_build desc h") (simp_all add: ex_build_def)

subsection \<open>The column map\<close>

lemma colMap_fold:
  fixes cols :: "Column list"
  defines "F \<equiv> \<lambda>n. fold (\<lambda>i m. m(ucast (col_stableID (cols ! i)) \<mapsto> i)) [0..<n] Map.empty"
  shows "(F n k = Some j \<longrightarrow> j < n \<and> (ucast (col_stableID (cols ! j)) :: ColumnID) = k) \<and>
         (F n k = None \<longrightarrow> (\<forall>i < n. (ucast (col_stableID (cols ! i)) :: ColumnID) \<noteq> k))"
proof -
  have F0: "F 0 = Map.empty"
    by (simp add: F_def)
  have FS: "F (Suc m) = (F m)(ucast (col_stableID (cols ! m)) \<mapsto> m)" for m
    by (simp add: F_def)
  show ?thesis
  proof (induction n arbitrary: j)
    case 0
    show ?case by (simp add: F0)
  next
    case (Suc n)
    show ?case
    proof (cases "(ucast (col_stableID (cols ! n)) :: ColumnID) = k")
      case True
      then show ?thesis by (auto simp: FS)
    next
      case False
      then have e: "F (Suc n) k = F n k"
        by (simp add: FS)
      from Suc [of j] False show ?thesis
        unfolding e by (auto simp: less_Suc_eq)
    qed
  qed
qed

lemma buildColMap_Some:
  "buildColMap cols k = Some j \<Longrightarrow> j < length cols \<and> ucast (col_stableID (cols ! j)) = k"
  using colMap_fold [of cols "length cols" k j] by (simp add: buildColMap_def)

lemma buildColMap_None:
  "buildColMap cols k = None \<Longrightarrow> i < length cols \<Longrightarrow> ucast (col_stableID (cols ! i)) \<noteq> k"
  using colMap_fold [of cols "length cols" k] by (simp add: buildColMap_def)

lemma buildColMap_distinct:
  assumes "distinct (map (\<lambda>c. (ucast (col_stableID c) :: ColumnID)) cols)" and "i < length cols"
  shows "buildColMap cols (ucast (col_stableID (cols ! i))) = Some i"
proof (cases "buildColMap cols (ucast (col_stableID (cols ! i)))")
  case None
  from buildColMap_None [OF None assms(2)] show ?thesis by simp
next
  case (Some j)
  from buildColMap_Some [OF Some]
  have j: "j < length cols"
    and e: "(ucast (col_stableID (cols ! j)) :: ColumnID) = ucast (col_stableID (cols ! i))"
    by auto
  from e j assms(2)
  have "map (\<lambda>c. (ucast (col_stableID c) :: ColumnID)) cols ! j =
        map (\<lambda>c. (ucast (col_stableID c) :: ColumnID)) cols ! i"
    by simp
  with assms j have "j = i"
    by (auto simp: distinct_conv_nth)
  with Some show ?thesis by simp
qed

lemma lookup_in_range:
  "cols \<noteq> [] \<Longrightarrow> fst (lookupColumnOrdinal (buildColMap cols) c) < length cols"
  by (auto simp: lookupColumnOrdinal_def dest: buildColMap_Some split: option.splits)

subsection \<open>The columns before the indexes\<close>

lemma length_descriptorColumns:
  "length (descriptorColumns desc) = length (DeletableColumns desc)"
  by (simp add: descriptorColumns_def Let_def)

lemma nth_descriptorColumns:
  "i < length (DeletableColumns desc) \<Longrightarrow>
   col_stableID (descriptorColumns desc ! i) = ucast (cd_ID (DeletableColumns desc ! i)) \<and>
   col_nullable (descriptorColumns desc ! i) = cd_Nullable (DeletableColumns desc ! i) \<and>
   col_name (descriptorColumns desc ! i) = cd_Name (DeletableColumns desc ! i) \<and>
   col_ordinal (descriptorColumns desc ! i) = i \<and>
   col_kind (descriptorColumns desc ! i) \<noteq> System \<and>
   col_kind (descriptorColumns desc ! i) \<noteq> Virtual"
  by (simp add: descriptorColumns_def Let_def InitNonVirtual_def)

lemma descriptorColumns_no_System:
  "c \<in> set (descriptorColumns desc) \<Longrightarrow> col_kind c \<noteq> System"
proof -
  assume "c \<in> set (descriptorColumns desc)"
  then obtain i where i: "i < length (descriptorColumns desc)" and c: "c = descriptorColumns desc ! i"
    by (auto simp: in_set_conv_nth)
  from i have "i < length (DeletableColumns desc)"
    by (simp add: length_descriptorColumns)
  from nth_descriptorColumns [OF this] c show ?thesis by simp
qed

lemma addSystemColumn_Inr:
  "addSystemColumn env desc (columnCapacity desc) (descriptorColumns desc) = Inr columns0 \<Longrightarrow>
   columns0 = descriptorColumns desc @
     (if FindColumnByName desc (MVCCTimestampColumnName env) = None
      then [systemColumn env desc] else [])"
  by (auto simp: addSystemColumn_def newColumn_def Let_def systemColumn_def
                 length_descriptorColumns columnCapacity_def
           split: option.splits if_splits)

lemma FindColumnByName_Some:
  "FindColumnByName desc n \<noteq> None \<Longrightarrow> DeletableColumns desc \<noteq> []"
  by (auto simp: FindColumnByName_def)

lemma columns0_nonempty:
  "addSystemColumn env desc (columnCapacity desc) (descriptorColumns desc) = Inr columns0 \<Longrightarrow>
   columns0 \<noteq> []"
proof -
  assume a: "addSystemColumn env desc (columnCapacity desc) (descriptorColumns desc) = Inr columns0"
  show ?thesis
  proof (cases "FindColumnByName desc (MVCCTimestampColumnName env) = None")
    case True
    with addSystemColumn_Inr [OF a] show ?thesis by simp
  next
    case False
    from FindColumnByName_Some [OF this] have "length (descriptorColumns desc) \<noteq> 0"
      by (simp add: length_descriptorColumns)
    with addSystemColumn_Inr [OF a] False show ?thesis by auto
  qed
qed

subsection \<open>Staleness of a cached table\<close>

text \<open>
  C3. For a table built from a descriptor, a statistics slice and a zone: \<open>isStale\<close>, asked
  with a new descriptor, new statistics and a new zone, is true exactly when the two
  slices differ in length, or both are non-empty and do not start at the same address, or
  the new zone is not deeply equal to the one of the build, or the versions of the
  user-defined column types differ. So it is false for the same slice with an equal zone
  and unchanged type versions, and true for a non-empty slice of the same length at another
  address.
\<close>

theorem isStale_iff:
  assumes "newOptTable env h0 desc codec stats tblZone = Inr (ot, h1)"
  shows "(isStale h ot newDesc newStats newZone \<longleftrightarrow>
            length (ss_elems newStats) \<noteq> length (ss_elems stats) \<or>
            (ss_elems newStats \<noteq> [] \<and> ss_elems stats \<noteq> [] \<and> ss_base newStats \<noteq> ss_base stats) \<or>
            \<not> zone_Equal h newZone tblZone \<or>
            \<not> UserDefinedTypeColsHaveSameVersion desc newDesc) \<and>
         (zone_Equal h newZone tblZone \<longrightarrow> UserDefinedTypeColsHaveSameVersion desc newDesc \<longrightarrow>
            \<not> isStale h ot newDesc stats newZone) \<and>
         (ss_elems newStats \<noteq> [] \<longrightarrow> length (ss_elems newStats) = length (ss_elems stats) \<longrightarrow>
          ss_base newStats \<noteq> ss_base stats \<longrightarrow>
            isStale h ot newDesc newStats newZone)"
proof -
  from assms have f: "ot_desc ot = desc" "ot_rawStats ot = stats" "ot_zone ot = tblZone"
    by (auto elim: newOptTable_Inr)
  show ?thesis
    unfolding isStale_def f by auto
qed

theorem isStale_iff_witness:
  "\<not> isStale (ex_store ex_desc ex_zones) (ex_table ex_desc ex_zones) ex_desc (ex_stats 7) (Some 1) \<and>
   isStale (ex_store ex_desc ex_zones) (ex_table ex_desc ex_zones) ex_desc (ex_stats 8) (Some 1)"
proof -
  have b: "newOptTable ex_env ex_zones ex_desc 0 (ex_stats 7) (Some 1) =
           Inr (ex_table ex_desc ex_zones, ex_store ex_desc ex_zones)"
    by (rule ex_build_Inr) code_simp
  have z: "zone_Equal (ex_store ex_desc ex_zones) (Some 1) (Some 1)"
    by (simp add: zone_Equal_def)
  have u: "UserDefinedTypeColsHaveSameVersion ex_desc ex_desc"
    by code_simp
  have n: "ss_elems (ex_stats 8) \<noteq> []"
    by (simp add: ex_stats_def)
  have l: "length (ss_elems (ex_stats 8)) = length (ss_elems (ex_stats 7))"
    by (simp add: ex_stats_def)
  have a: "ss_base (ex_stats 8) \<noteq> ss_base (ex_stats 7)"
    by (simp add: ex_stats_def)
  note t = isStale_iff [OF b]
  from t [THEN conjunct2, THEN conjunct1, rule_format, OF z u]
       t [THEN conjunct2, THEN conjunct2, rule_format, OF n l a]
  show ?thesis by (rule conjI)
qed

subsection \<open>The loop over the indexes\<close>

text \<open>
  The columns that the key columns of an index are looked up in are those before the loop:
  the loop only appends columns, and the column map only knows ordinals below their number.
\<close>

lemma keyColsNotNull_base:
  assumes "\<And>c. fst (lookupColumnOrdinal cm c) < length base"
  shows "keyColsNotNull (base @ ext) cm ids =
         Inr (\<not> list_ex (\<lambda>c. IsNullable (base ! fst (lookupColumnOrdinal cm c))) ids)"
proof (induction ids)
  case Nil
  show ?case by simp
next
  case (Cons c ids)
  have r: "fst (lookupColumnOrdinal cm c) < length base"
    by (rule assms)
  then have n: "(base @ ext) ! fst (lookupColumnOrdinal cm c) = base ! fst (lookupColumnOrdinal cm c)"
    by (simp add: nth_append)
  from r have l: "\<not> length (base @ ext) \<le> fst (lookupColumnOrdinal cm c)"
    by simp
  show ?case
    using Cons.IH l by (simp add: Let_def n del: length_append)
qed

lemma optIndex_init_counts:
  assumes "\<And>c. fst (lookupColumnOrdinal cm c) < length base"
    and "optIndex_init (base @ ext) cm p k d z v = Inr oi"
  shows "indexCounts (list_ex (\<lambda>c. IsNullable (base ! fst (lookupColumnOrdinal cm c))) (ix_ColumnIDs d)) d oi
         \<and> oi_zone oi = z"
  using assms(2)
  unfolding optIndex_init_def Let_def keyColsNotNull_base [OF assms(1)] indexCounts_def
  by (auto split: if_splits)

lemma indexStep_columns:
  assumes "\<And>c. fst (lookupColumnOrdinal cm c) < length base"
    and "indexStep cap cm i d z (base @ e0) = Inr (oi, cols1)"
  shows "\<exists>e1. cols1 = base @ e0 @ e1 \<and> (\<forall>c \<in> set e1. col_kind c = Virtual) \<and>
           indexCounts (list_ex (\<lambda>c. IsNullable (base ! fst (lookupColumnOrdinal cm c)))
                          (ix_ColumnIDs d)) d oi \<and>
           oi_zone oi = z"
proof (cases "ix_Type d = INVERTED")
  case False
  with assms(2) have "optIndex_init (base @ e0) cm (i = 0) i d z (-1) = Inr oi" "cols1 = base @ e0"
    by (auto simp: indexStep_def split: sum.splits)
  with optIndex_init_counts [OF assms(1), of e0] show ?thesis
    by auto
next
  case True
  with assms(2) obtain vc ord where
    c: "cols1 = (base @ e0) @ [vc]" and k: "col_kind vc = Virtual"
    and i: "optIndex_init ((base @ e0) @ [vc]) cm (i = 0) i d z ord = Inr oi"
    by (auto simp: indexStep_def Let_def InitVirtual_def
             split: sum.splits list.splits if_splits simp del: append_assoc)
  from i have "optIndex_init (base @ (e0 @ [vc])) cm (i = 0) i d z ord = Inr oi"
    by simp
  from optIndex_init_counts [OF assms(1) this] c k show ?thesis
    by auto
qed

lemma buildIndexes_columns:
  assumes "\<And>c. fst (lookupColumnOrdinal cm c) < length base"
    and "buildIndexes env cap cm tz i ds (base @ e0) h = Inr (ois, cols', h')"
  shows "\<exists>e1. cols' = base @ e0 @ e1 \<and> (\<forall>c \<in> set e1. col_kind c = Virtual) \<and>
           list_all2 (\<lambda>d oi. indexCounts (list_ex (\<lambda>c. IsNullable (base ! fst (lookupColumnOrdinal cm c)))
                                            (ix_ColumnIDs d)) d oi) ds ois"
  using assms(2)
proof (induction ds arbitrary: i e0 h ois cols' h')
  case Nil
  then have "cols' = base @ e0 @ []" "ois = []" by auto
  then show ?case by (intro exI [of _ "[]"]) simp
next
  case (Cons d ds)
  obtain z h1 where z: "indexZone env tz (ix_ID d) (zc_Subzones (zs_val h tz)) (Some tz) h = (z, h1)"
    by (cases "indexZone env tz (ix_ID d) (zc_Subzones (zs_val h tz)) (Some tz) h")
  from Cons.prems z obtain oi cols1 ois1 where
    s: "indexStep cap cm i d z (base @ e0) = Inr (oi, cols1)"
    and r: "buildIndexes env cap cm tz (i + 1) ds cols1 h1 = Inr (ois1, cols', h')"
    and o: "ois = oi # ois1"
    by (auto split: sum.splits)
  from indexStep_columns [OF assms(1) s] obtain e1 where
    c1: "cols1 = base @ e0 @ e1" and v1: "\<forall>c \<in> set e1. col_kind c = Virtual"
    and n1: "indexCounts (list_ex (\<lambda>c. IsNullable (base ! fst (lookupColumnOrdinal cm c)))
                            (ix_ColumnIDs d)) d oi"
    by auto
  from r c1 have "buildIndexes env cap cm tz (i + 1) ds (base @ (e0 @ e1)) h1 = Inr (ois1, cols', h')"
    by simp
  from Cons.IH [OF this] obtain e2 where
    c2: "cols' = base @ (e0 @ e1) @ e2" and v2: "\<forall>c \<in> set e2. col_kind c = Virtual"
    and n2: "list_all2 (\<lambda>d oi. indexCounts (list_ex (\<lambda>c. IsNullable (base ! fst (lookupColumnOrdinal cm c)))
                                            (ix_ColumnIDs d)) d oi) ds ois1"
    by auto
  show ?case
  proof (intro exI conjI)
    show "cols' = base @ e0 @ (e1 @ e2)" using c2 by simp
    show "\<forall>c \<in> set (e1 @ e2). col_kind c = Virtual" using v1 v2 by auto
    show "list_all2 (\<lambda>d oi. indexCounts (list_ex (\<lambda>c. IsNullable (base ! fst (lookupColumnOrdinal cm c)))
                                            (ix_ColumnIDs d)) d oi) (d # ds) ois"
      using n1 n2 o by simp
  qed
qed

text \<open>The columns and the indexes of a built table.\<close>

lemma newOptTable_columns:
  assumes "newOptTable env h desc codec stats tblZone = Inr (ot, h')"
  obtains columns0 ext where
    "columns0 = descriptorColumns desc @
       (if FindColumnByName desc (MVCCTimestampColumnName env) = None
        then [systemColumn env desc] else [])"
    "columns0 \<noteq> []"
    "ot_columns ot = columns0 @ ext"
    "\<forall>c \<in> set ext. col_kind c = Virtual"
    "ot_colMap ot = buildColMap columns0"
    "list_all2 (\<lambda>d oi. indexCounts (list_ex (\<lambda>c. IsNullable (columns0 !
                           fst (lookupColumnOrdinal (buildColMap columns0) c))) (ix_ColumnIDs d)) d oi)
       (indexDescriptors desc) (ot_indexes ot)"
proof -
  from assms obtain columns0 tz where
    a: "addSystemColumn env desc (columnCapacity desc) (descriptorColumns desc) = Inr columns0"
    and b: "buildIndexes env (columnCapacity desc) (buildColMap columns0) tz 0 (indexDescriptors desc)
              columns0 h = Inr (ot_indexes ot, ot_columns ot, h')"
    and m: "ot_colMap ot = buildColMap columns0"
    by (auto elim: newOptTable_Inr)
  note ne = columns0_nonempty [OF a]
  have r: "\<And>c. fst (lookupColumnOrdinal (buildColMap columns0) c) < length columns0"
    by (rule lookup_in_range [OF ne])
  from b have "buildIndexes env (columnCapacity desc) (buildColMap columns0) tz 0
                 (indexDescriptors desc) (columns0 @ []) h = Inr (ot_indexes ot, ot_columns ot, h')"
    by simp
  from buildIndexes_columns [OF r this] obtain ext where
    "ot_columns ot = columns0 @ ext" "\<forall>c \<in> set ext. col_kind c = Virtual"
    "list_all2 (\<lambda>d oi. indexCounts (list_ex (\<lambda>c. IsNullable (columns0 !
                           fst (lookupColumnOrdinal (buildColMap columns0) c))) (ix_ColumnIDs d)) d oi)
       (indexDescriptors desc) (ot_indexes ot)"
    by auto
  with addSystemColumn_Inr [OF a] ne m show ?thesis
    by (rule_tac that) auto
qed

subsection \<open>Key columns of an index\<close>

lemma descriptorColumns_keys:
  "map (\<lambda>c. (ucast (col_stableID c) :: ColumnID)) (descriptorColumns desc) =
   map cd_ID (DeletableColumns desc)"
  by (rule nth_equalityI)
     (simp_all add: length_descriptorColumns nth_descriptorColumns ucast_down_up)

lemma columns0_keys:
  assumes "columns0 = descriptorColumns desc @
             (if FindColumnByName desc (MVCCTimestampColumnName env) = None
              then [systemColumn env desc] else [])"
  shows "map (\<lambda>c. (ucast (col_stableID c) :: ColumnID)) columns0 =
         map cd_ID (DeletableColumns desc) @
           (if FindColumnByName desc (MVCCTimestampColumnName env) = None
            then [MVCCTimestampColumnID env] else [])"
  unfolding assms
  by (simp add: descriptorColumns_keys systemColumn_def InitNonVirtual_def ucast_down_up)

lemma resolved_ordinal:
  assumes c0: "columns0 = descriptorColumns desc @
             (if FindColumnByName desc (MVCCTimestampColumnName env) = None
              then [systemColumn env desc] else [])"
    and r: "keyColumnsResolve env desc d"
    and j: "j < length (DeletableColumns desc)"
  shows "fst (lookupColumnOrdinal (buildColMap columns0) (cd_ID (DeletableColumns desc ! j))) = j"
    and "IsNullable (columns0 ! j) = cd_Nullable (DeletableColumns desc ! j)"
proof -
  from r have "distinct (map cd_ID (DeletableColumns desc) @
                 (if FindColumnByName desc (MVCCTimestampColumnName env) = None
                  then [MVCCTimestampColumnID env] else []))"
    by (auto simp: keyColumnsResolve_def)
  then have dist: "distinct (map (\<lambda>c. (ucast (col_stableID c) :: ColumnID)) columns0)"
    by (simp only: columns0_keys [OF c0])
  from j have jl: "j < length columns0"
    unfolding c0 by (simp add: length_descriptorColumns)
  from j have n: "columns0 ! j = descriptorColumns desc ! j"
    unfolding c0 by (simp add: nth_append length_descriptorColumns)
  have k: "(ucast (col_stableID (columns0 ! j)) :: ColumnID) = cd_ID (DeletableColumns desc ! j)"
    unfolding n using nth_descriptorColumns [OF j] by (simp add: ucast_down_up)
  from buildColMap_distinct [OF dist jl]
  show "fst (lookupColumnOrdinal (buildColMap columns0) (cd_ID (DeletableColumns desc ! j))) = j"
    unfolding k by (simp add: lookupColumnOrdinal_def)
  show "IsNullable (columns0 ! j) = cd_Nullable (DeletableColumns desc ! j)"
    unfolding n IsNullable_def using nth_descriptorColumns [OF j] by simp
qed

lemma resolved_nullable:
  assumes c0: "columns0 = descriptorColumns desc @
             (if FindColumnByName desc (MVCCTimestampColumnName env) = None
              then [systemColumn env desc] else [])"
    and r: "keyColumnsResolve env desc d"
  shows "list_ex (\<lambda>c. IsNullable (columns0 ! fst (lookupColumnOrdinal (buildColMap columns0) c)))
           (ix_ColumnIDs d) = descriptorKeyNullable desc d"
proof
  assume "list_ex (\<lambda>c. IsNullable (columns0 ! fst (lookupColumnOrdinal (buildColMap columns0) c)))
            (ix_ColumnIDs d)"
  then obtain c where c: "c \<in> set (ix_ColumnIDs d)"
    and n: "IsNullable (columns0 ! fst (lookupColumnOrdinal (buildColMap columns0) c))"
    by (auto simp: list_ex_iff)
  from c r have "c \<in> set (map cd_ID (DeletableColumns desc))"
    by (auto simp: keyColumnsResolve_def)
  then obtain j where j: "j < length (DeletableColumns desc)"
    and e: "c = cd_ID (DeletableColumns desc ! j)"
    by (auto simp: in_set_conv_nth)
  from n resolved_ordinal [OF c0 r j] e have "cd_Nullable (DeletableColumns desc ! j)"
    by simp
  with j c e show "descriptorKeyNullable desc d"
    unfolding descriptorKeyNullable_def list_ex_iff
    by (intro bexI [of _ "DeletableColumns desc ! j"]) simp_all
next
  assume "descriptorKeyNullable desc d"
  then obtain col where m: "col \<in> set (DeletableColumns desc)"
    and k: "cd_ID col \<in> set (ix_ColumnIDs d)" and n: "cd_Nullable col"
    by (auto simp: descriptorKeyNullable_def list_ex_iff)
  from m obtain j where j: "j < length (DeletableColumns desc)"
    and e: "col = DeletableColumns desc ! j"
    by (auto simp: in_set_conv_nth)
  from resolved_ordinal [OF c0 r j] n e
  have "IsNullable (columns0 ! fst (lookupColumnOrdinal (buildColMap columns0) (cd_ID col)))"
    by simp
  with k show "list_ex (\<lambda>c. IsNullable (columns0 ! fst (lookupColumnOrdinal (buildColMap columns0) c)))
                 (ix_ColumnIDs d)"
    unfolding list_ex_iff by (intro bexI [of _ "cd_ID col"])
qed

text \<open>
  C1. In a built table there is one index for the primary index of the descriptor and one
  for each of its deletable secondary indexes, in this order. For each of them: when the
  index is unique and none of its declared key columns is nullable, the lax key and the
  key are the declared key columns; when it is unique and a declared key column is
  nullable, the lax key is the declared key columns and the key adds the extra columns;
  when it is not unique, both are the declared and the extra columns. The declared key
  columns are read in the table; in a descriptor whose columns have distinct IDs that
  include the key columns of the index, a declared key column is nullable exactly when the
  descriptor says so.
\<close>

theorem index_key_column_counts:
  assumes "newOptTable env h desc codec stats tblZone = Inr (ot, h')"
    and "i < length (ot_indexes ot)"
  shows "length (ot_indexes ot) = 1 + length (DeletableIndexes desc) \<and>
         oi_desc (ot_indexes ot ! i) = indexDescriptors desc ! i \<and>
         (let oi = ot_indexes ot ! i;
              d = oi_desc oi;
              n = length (ix_ColumnIDs d);
              x = length (ix_ExtraColumnIDs d)
          in (optIndex_IsUnique oi \<and> \<not> declaredKeyNullable ot d \<longrightarrow>
                optIndex_LaxKeyColumnCount oi = n \<and> optIndex_KeyColumnCount oi = n) \<and>
             (optIndex_IsUnique oi \<and> declaredKeyNullable ot d \<longrightarrow>
                optIndex_LaxKeyColumnCount oi = n \<and>
                optIndex_KeyColumnCount oi = optIndex_LaxKeyColumnCount oi + x) \<and>
             (\<not> optIndex_IsUnique oi \<longrightarrow>
                optIndex_LaxKeyColumnCount oi = n + x \<and> optIndex_KeyColumnCount oi = n + x) \<and>
             (keyColumnsResolve env desc d \<longrightarrow>
                declaredKeyNullable ot d = descriptorKeyNullable desc d))"
proof -
  from assms(1) obtain columns0 ext where
    c0: "columns0 = descriptorColumns desc @
           (if FindColumnByName desc (MVCCTimestampColumnName env) = None
            then [systemColumn env desc] else [])"
    and ne: "columns0 \<noteq> []"
    and cols: "ot_columns ot = columns0 @ ext"
    and cm: "ot_colMap ot = buildColMap columns0"
    and all: "list_all2 (\<lambda>d oi. indexCounts (list_ex (\<lambda>c. IsNullable (columns0 !
                 fst (lookupColumnOrdinal (buildColMap columns0) c))) (ix_ColumnIDs d)) d oi)
               (indexDescriptors desc) (ot_indexes ot)"
    by (rule newOptTable_columns)
  let ?d = "indexDescriptors desc ! i"
  let ?oi = "ot_indexes ot ! i"
  from all have len: "length (indexDescriptors desc) = length (ot_indexes ot)"
    by (rule list_all2_lengthD)
  from all assms(2) have ic:
    "indexCounts (list_ex (\<lambda>c. IsNullable (columns0 !
        fst (lookupColumnOrdinal (buildColMap columns0) c))) (ix_ColumnIDs ?d)) ?d ?oi"
    by (simp add: list_all2_conv_all_nth)
  have key: "keyColumn ot c = columns0 ! fst (lookupColumnOrdinal (buildColMap columns0) c)" for c
    unfolding keyColumn_def cm cols
    using lookup_in_range [OF ne, of c] by (simp add: nth_append)
  have dn: "declaredKeyNullable ot d =
            list_ex (\<lambda>c. IsNullable (columns0 ! fst (lookupColumnOrdinal (buildColMap columns0) c)))
              (ix_ColumnIDs d)" for d
    unfolding declaredKeyNullable_def key ..
  from ic have od: "oi_desc ?oi = ?d"
    by (simp add: indexCounts_def)
  have l: "length (ot_indexes ot) = 1 + length (DeletableIndexes desc)"
    using len by (simp add: indexDescriptors_def)
  have r: "keyColumnsResolve env desc ?d \<Longrightarrow>
           declaredKeyNullable ot ?d = descriptorKeyNullable desc ?d"
    unfolding dn by (rule resolved_nullable [OF c0])
  from ic have counts:
    "oi_numLaxKeyCols ?oi =
       (if ix_Unique ?d then length (ix_ColumnIDs ?d)
        else length (ix_ColumnIDs ?d) + length (ix_ExtraColumnIDs ?d))"
    "oi_numKeyCols ?oi =
       (if ix_Unique ?d \<and> \<not> declaredKeyNullable ot ?d then length (ix_ColumnIDs ?d)
        else length (ix_ColumnIDs ?d) + length (ix_ExtraColumnIDs ?d))"
    unfolding dn by (simp_all add: indexCounts_def)
  show ?thesis
    using l od r counts
    by (simp add: Let_def optIndex_IsUnique_def optIndex_LaxKeyColumnCount_def
          optIndex_KeyColumnCount_def)
qed

theorem index_key_column_counts_witness:
  "map optIndex_LaxKeyColumnCount (ot_indexes (ex_table ex_desc ex_zones)) = [1, 1, 2] \<and>
   map optIndex_KeyColumnCount (ot_indexes (ex_table ex_desc ex_zones)) = [1, 2, 2]"
proof -
  let ?ot = "ex_table ex_desc ex_zones"
  have b: "newOptTable ex_env ex_zones ex_desc 0 (ex_stats 7) (Some 1) =
           Inr (?ot, ex_store ex_desc ex_zones)"
    by (rule ex_build_Inr) code_simp
  have n: "length (ot_indexes ?ot) = 3"
    by code_simp
  have i0: "(0::nat) < length (ot_indexes ?ot)" and i1: "(1::nat) < length (ot_indexes ?ot)"
    and i2: "(2::nat) < length (ot_indexes ?ot)"
    by (simp_all add: n)
  have d: "indexDescriptors ex_desc = [ex_primary, ex_idxB, ex_idxC]"
    by (simp add: indexDescriptors_def ex_desc_def DeletableIndexes_def)
  have r: "keyColumnsResolve ex_env ex_desc ex_primary" "keyColumnsResolve ex_env ex_desc ex_idxB"
    "keyColumnsResolve ex_env ex_desc ex_idxC"
    by (simp_all add: keyColumnsResolve_def ex_env_def ex_desc_def DeletableColumns_def
          ex_colA_def ex_colB_def ex_colC_def ex_primary_def ex_idxB_def ex_idxC_def MaxUint32_def)
  have k: "\<not> descriptorKeyNullable ex_desc ex_primary" "descriptorKeyNullable ex_desc ex_idxB"
    by (simp_all add: descriptorKeyNullable_def ex_desc_def DeletableColumns_def
          ex_colA_def ex_colB_def ex_colC_def ex_primary_def ex_idxB_def)
  have u: "ix_Unique ex_primary" "ix_Unique ex_idxB" "\<not> ix_Unique ex_idxC"
    by (simp_all add: ex_primary_def ex_idxB_def ex_idxC_def)
  have s: "length (ix_ColumnIDs ex_primary) = 1" "length (ix_ExtraColumnIDs ex_primary) = 0"
    "length (ix_ColumnIDs ex_idxB) = 1" "length (ix_ExtraColumnIDs ex_idxB) = 1"
    "length (ix_ColumnIDs ex_idxC) = 1" "length (ix_ExtraColumnIDs ex_idxC) = 1"
    by (simp_all add: ex_primary_def ex_idxB_def ex_idxC_def)
  have c0: "optIndex_LaxKeyColumnCount (ot_indexes ?ot ! 0) = 1 \<and>
            optIndex_KeyColumnCount (ot_indexes ?ot ! 0) = 1"
  proof -
    note t = index_key_column_counts [OF b i0]
    from t have o: "oi_desc (ot_indexes ?ot ! 0) = ex_primary"
      by (simp add: d)
    from t r k u s show ?thesis
      by (simp add: o o [unfolded One_nat_def] Let_def optIndex_IsUnique_def)
  qed
  have c1: "optIndex_LaxKeyColumnCount (ot_indexes ?ot ! 1) = 1 \<and>
            optIndex_KeyColumnCount (ot_indexes ?ot ! 1) = 2"
  proof -
    note t = index_key_column_counts [OF b i1]
    from t have o: "oi_desc (ot_indexes ?ot ! 1) = ex_idxB"
      by (simp add: d)
    from t r k u s show ?thesis
      by (simp add: o o [unfolded One_nat_def] Let_def optIndex_IsUnique_def)
  qed
  have c2: "optIndex_LaxKeyColumnCount (ot_indexes ?ot ! 2) = 2 \<and>
            optIndex_KeyColumnCount (ot_indexes ?ot ! 2) = 2"
  proof -
    note t = index_key_column_counts [OF b i2]
    from t have o: "oi_desc (ot_indexes ?ot ! 2) = ex_idxC"
      by (simp add: d)
    from t r k u s show ?thesis
      by (simp add: o o [unfolded One_nat_def] Let_def optIndex_IsUnique_def)
  qed
  have e: "xs = [xs ! 0, xs ! 1, xs ! 2]" if "length xs = 3" for xs :: "optIndex list"
    using that by (auto simp: list_eq_iff_nth_eq less_Suc_eq numeral_3_eq_3 numeral_2_eq_2)
  from c0 c1 c2 show ?thesis
    by (subst (1 2) e [OF n]) simp
qed

subsection \<open>The system column\<close>

text \<open>
  C2, as stated, has the system column non-nullable. The table built from the example
  descriptor, which has no column of the reserved name, gets the system column after its
  three columns, and that column is hidden and nullable.
\<close>

theorem system_column_counterexample:
  "\<not> isl (ex_build ex_desc ex_zones) \<and>
   FindColumnByName ex_desc (MVCCTimestampColumnName ex_env) = None \<and>
   length (DeletableColumns ex_desc) = 3 \<and>
   col_kind (ot_columns (ex_table ex_desc ex_zones) ! 3) = System \<and>
   IsHidden (ot_columns (ex_table ex_desc ex_zones) ! 3) \<and>
   IsNullable (ot_columns (ex_table ex_desc ex_zones) ! 3)"
  by code_simp

lemma filter_System_descriptorColumns:
  "filter (\<lambda>c. col_kind c = System) (descriptorColumns desc) = []"
  by (auto simp: filter_empty_conv dest: descriptorColumns_no_System)

lemma filter_System_Virtual:
  "\<forall>c \<in> set ext. col_kind c = Virtual \<Longrightarrow> filter (\<lambda>c. col_kind c = System) ext = []"
  by (auto simp: filter_empty_conv)

lemma FindColumnByName_None:
  "FindColumnByName desc n = None \<longleftrightarrow> n \<notin> set (map cd_Name (DeletableColumns desc))"
  by (auto simp: FindColumnByName_def find_None_iff)

text \<open>
  C2, amended. The columns of a built table start with the columns of the descriptor. When
  the descriptor has no column of the reserved name, the next column, after all of them,
  is the system column, which is hidden and nullable, and it is the only system column of
  the table. When the descriptor has a column of that name, the table has no system
  column.
\<close>

theorem system_column:
  assumes "newOptTable env h desc codec stats tblZone = Inr (ot, h')"
  shows "take (length (DeletableColumns desc)) (ot_columns ot) = descriptorColumns desc \<and>
         (MVCCTimestampColumnName env \<notin> set (map cd_Name (DeletableColumns desc)) \<longrightarrow>
            length (DeletableColumns desc) < length (ot_columns ot) \<and>
            ot_columns ot ! length (DeletableColumns desc) = systemColumn env desc \<and>
            col_kind (systemColumn env desc) = System \<and>
            IsHidden (systemColumn env desc) \<and> IsNullable (systemColumn env desc) \<and>
            filter (\<lambda>c. col_kind c = System) (ot_columns ot) = [systemColumn env desc]) \<and>
         (MVCCTimestampColumnName env \<in> set (map cd_Name (DeletableColumns desc)) \<longrightarrow>
            filter (\<lambda>c. col_kind c = System) (ot_columns ot) = [])"
proof -
  from assms obtain columns0 ext where
    c0: "columns0 = descriptorColumns desc @
           (if FindColumnByName desc (MVCCTimestampColumnName env) = None
            then [systemColumn env desc] else [])"
    and cols: "ot_columns ot = columns0 @ ext"
    and v: "\<forall>c \<in> set ext. col_kind c = Virtual"
    by (rule newOptTable_columns)
  have k: "col_kind (systemColumn env desc) = System" "IsHidden (systemColumn env desc)"
    "IsNullable (systemColumn env desc)"
    by (simp_all add: systemColumn_def InitNonVirtual_def IsHidden_def IsNullable_def)
  have t: "take (length (DeletableColumns desc)) (ot_columns ot) = descriptorColumns desc"
    unfolding cols c0 by (simp add: length_descriptorColumns)
  show ?thesis
  proof (cases "FindColumnByName desc (MVCCTimestampColumnName env) = None")
    case True
    then have n: "MVCCTimestampColumnName env \<notin> set (map cd_Name (DeletableColumns desc))"
      using FindColumnByName_None by blast
    from True have c: "ot_columns ot = descriptorColumns desc @ [systemColumn env desc] @ ext"
      unfolding cols c0 by simp
    have "ot_columns ot ! length (DeletableColumns desc) = systemColumn env desc"
      unfolding c by (simp add: nth_append length_descriptorColumns)
    moreover have "length (DeletableColumns desc) < length (ot_columns ot)"
      unfolding c by (simp add: length_descriptorColumns)
    moreover have "filter (\<lambda>c. col_kind c = System) (ot_columns ot) = [systemColumn env desc]"
      unfolding c
      by (simp add: filter_System_descriptorColumns filter_System_Virtual [OF v] k)
    ultimately show ?thesis
      using t n k by simp
  next
    case False
    then have n: "MVCCTimestampColumnName env \<in> set (map cd_Name (DeletableColumns desc))"
      using FindColumnByName_None [of desc "MVCCTimestampColumnName env"] by auto
    from False have c: "ot_columns ot = descriptorColumns desc @ ext"
      unfolding cols c0 by simp
    have "filter (\<lambda>c. col_kind c = System) (ot_columns ot) = []"
      unfolding c by (simp add: filter_System_descriptorColumns filter_System_Virtual [OF v])
    then show ?thesis
      using t n by simp
  qed
qed

theorem system_column_witness:
  "map col_name (filter (\<lambda>c. col_kind c = System) (ot_columns (ex_table ex_desc ex_zones))) =
     [''crdb_internal_mvcc_timestamp''] \<and>
   IsNullable (ot_columns (ex_table ex_desc ex_zones) ! 3) \<and>
   filter (\<lambda>c. col_kind c = System)
     (ot_columns (ex_table (ex_desc\<lparr>td_WriteOnlyColumns :=
        [ex_colC\<lparr>cd_ID := 9, cd_Name := ''crdb_internal_mvcc_timestamp''\<rparr>]\<rparr>) ex_zones)) = []"
proof -
  let ?d2 = "ex_desc\<lparr>td_WriteOnlyColumns :=
               [ex_colC\<lparr>cd_ID := 9, cd_Name := ''crdb_internal_mvcc_timestamp''\<rparr>]\<rparr>"
  have b: "newOptTable ex_env ex_zones ex_desc 0 (ex_stats 7) (Some 1) =
           Inr (ex_table ex_desc ex_zones, ex_store ex_desc ex_zones)"
    by (rule ex_build_Inr) code_simp
  have b2: "newOptTable ex_env ex_zones ?d2 0 (ex_stats 7) (Some 1) =
            Inr (ex_table ?d2 ex_zones, ex_store ?d2 ex_zones)"
    by (rule ex_build_Inr) code_simp
  have n: "MVCCTimestampColumnName ex_env \<notin> set (map cd_Name (DeletableColumns ex_desc))"
    by (simp add: ex_env_def ex_desc_def DeletableColumns_def ex_colA_def ex_colB_def ex_colC_def)
  have n2: "MVCCTimestampColumnName ex_env \<in> set (map cd_Name (DeletableColumns ?d2))"
    by (simp add: ex_env_def ex_desc_def DeletableColumns_def ex_colA_def ex_colB_def ex_colC_def)
  have l: "length (DeletableColumns ex_desc) = 3"
    by (simp add: ex_desc_def DeletableColumns_def)
  have s: "col_name (systemColumn ex_env ex_desc) = ''crdb_internal_mvcc_timestamp''"
    by (simp add: systemColumn_def InitNonVirtual_def ex_env_def)
  from system_column [OF b, THEN conjunct2, THEN conjunct1, rule_format, OF n]
       system_column [OF b2, THEN conjunct2, THEN conjunct2, rule_format, OF n2]
  show ?thesis
    by (simp add: l s)
qed

subsection \<open>Equality of tables\<close>

lemma ordinalsEqual_iff:
  "length cs = length ds \<Longrightarrow> ordinalsEqual cs ds \<longleftrightarrow> cs = ds"
  by (induction cs ds rule: ordinalsEqual.induct) auto

lemma optTableStat_equals_iff:
  "optTableStat_equals os other \<longleftrightarrow>
     ts_CreatedAt (ots_stat os) = ts_CreatedAt (ots_stat other) \<and>
     ots_columnOrdinals os = ots_columnOrdinals other"
  by (auto simp: optTableStat_equals_def ordinalsEqual_iff)

lemma statsEqual_iff:
  "length ss = length ts \<Longrightarrow>
   statsEqual ss ts \<longleftrightarrow> (\<forall>i < length ss. optTableStat_equals (ss ! i) (ts ! i))"
proof (induction ss ts rule: statsEqual.induct)
  case (1 others)
  then show ?case by simp
next
  case (2 s ss)
  then show ?case by simp
next
  case (3 s ss t ts)
  show ?case
  proof (cases "optTableStat_equals s t")
    case True
    with "3.IH" "3.prems"
    have "statsEqual ss ts \<longleftrightarrow> (\<forall>i < length ss. optTableStat_equals (ss ! i) (ts ! i))"
      by simp
    with True show ?thesis
      by (auto simp: less_Suc_eq_0_disj)
  next
    case False
    then show ?thesis by auto
  qed
qed

text \<open>
  The loop over the zones decides the deep equality of all pairs: a pair that is skipped
  consists of the two pointers that were compared, and found deeply equal, last.
\<close>

lemma zonesEqual_iff:
  "zone_Equal h prevLeftZone prevRightZone \<Longrightarrow>
   zonesEqual h ls rs prevLeftZone prevRightZone = Inr True \<longleftrightarrow>
     length ls \<le> length rs \<and>
     (\<forall>i < length ls. zone_Equal h (oi_zone (ls ! i)) (oi_zone (rs ! i)))"
proof (induction h ls rs prevLeftZone prevRightZone rule: zonesEqual.induct)
  case (1 h others prevLeftZone prevRightZone)
  show ?case by simp
next
  case (2 h l ls prevLeftZone prevRightZone)
  show ?case by simp
next
  case (3 h l ls r rs prevLeftZone prevRightZone)
  show ?case
  proof (cases "oi_zone l = prevLeftZone \<and> oi_zone r = prevRightZone")
    case True
    with "3.prems" have e: "zone_Equal h (oi_zone l) (oi_zone r)"
      by simp
    from "3.IH"(1) [OF refl refl True "3.prems"] True e show ?thesis
      by (auto simp: less_Suc_eq_0_disj)
  next
    case False
    show ?thesis
    proof (cases "zone_Equal h (oi_zone l) (oi_zone r)")
      case e: True
      from "3.IH"(2) [OF refl refl False _ e] False e show ?thesis
        by (auto simp: less_Suc_eq_0_disj)
    next
      case ne: False
      with False show ?thesis
        by auto
    qed
  qed
qed

text \<open>
  C4. \<open>Equals\<close> of a table with another table returns true exactly when the two are the
  same object, or: the IDs and the versions of their descriptors are equal; they have the
  same number of statistics, and the statistics at each position have the same creation
  time and the same column ordinals; the versions of the user-defined column types are the
  same; and every index of the first table has a counterpart in the second whose zone is
  deeply equal to its own. Skipping the comparison of a pair of pointers that was compared
  last does not change the outcome.
\<close>

theorem optTable_Equals_iff:
  "optTable_Equals h a ot (TableObj b other) = Inr True \<longleftrightarrow>
     a = b \<or>
     (td_ID (ot_desc ot) = td_ID (ot_desc other) \<and>
      td_Version (ot_desc ot) = td_Version (ot_desc other) \<and>
      length (ot_stats ot) = length (ot_stats other) \<and>
      (\<forall>i < length (ot_stats ot).
         ts_CreatedAt (ots_stat (ot_stats ot ! i)) = ts_CreatedAt (ots_stat (ot_stats other ! i)) \<and>
         ots_columnOrdinals (ot_stats ot ! i) = ots_columnOrdinals (ot_stats other ! i)) \<and>
      UserDefinedTypeColsHaveSameVersion (ot_desc ot) (ot_desc other) \<and>
      length (ot_indexes ot) \<le> length (ot_indexes other) \<and>
      (\<forall>i < length (ot_indexes ot).
         zone_Equal h (oi_zone (ot_indexes ot ! i)) (oi_zone (ot_indexes other ! i))))"
proof (cases "a = b")
  case True
  then show ?thesis by (simp add: optTable_Equals_def)
next
  case False
  have z: "zone_Equal h None None"
    by (simp add: zone_Equal_def)
  show ?thesis
  proof (cases "length (ot_stats ot) = length (ot_stats other)")
    case l: True
    show ?thesis
      using False l
      by (auto simp: optTable_Equals_def statsEqual_iff [OF l] optTableStat_equals_iff
            zonesEqual_iff [OF z])
  next
    case l: False
    show ?thesis
      using False l by (simp add: optTable_Equals_def)
  qed
qed

theorem optTable_Equals_iff_witness:
  "optTable_Equals (ex_store ex_desc (ex_store ex_desc ex_zones)) 1 (ex_table ex_desc ex_zones)
     (TableObj 2 (ex_table ex_desc (ex_store ex_desc ex_zones))) = Inr True \<and>
   oi_zone (ot_indexes (ex_table ex_desc ex_zones) ! 1) = Some 2 \<and>
   oi_zone (ot_indexes (ex_table ex_desc (ex_store ex_desc ex_zones)) ! 1) = Some 3 \<and>
   zone_Equal (ex_store ex_desc (ex_store ex_desc ex_zones)) (Some 2) (Some 3)"
proof -
  let ?h = "ex_store ex_desc (ex_store ex_desc ex_zones)"
  let ?t1 = "ex_table ex_desc ex_zones"
  let ?t2 = "ex_table ex_desc (ex_store ex_desc ex_zones)"
  have e: "optTable_Equals ?h 1 ?t1 (TableObj 2 ?t2) = Inr True"
    by code_simp
  have n: "(1::nat) < length (ot_indexes ?t1)"
    by code_simp
  have p1: "oi_zone (ot_indexes ?t1 ! 1) = Some 2"
    by code_simp
  have p2: "oi_zone (ot_indexes ?t2 ! 1) = Some 3"
    by code_simp
  from optTable_Equals_iff [THEN iffD1, OF e]
  have "\<forall>i < length (ot_indexes ?t1).
          zone_Equal ?h (oi_zone (ot_indexes ?t1 ! i)) (oi_zone (ot_indexes ?t2 ! i))"
    by simp
  with n have "zone_Equal ?h (oi_zone (ot_indexes ?t1 ! 1)) (oi_zone (ot_indexes ?t2 ! 1))"
    by blast
  with e p1 p2 show ?thesis
    by simp
qed

subsection \<open>The zones of the indexes in the store\<close>

lemma zextends_refl: "zextends h h"
  by (simp add: zextends_def)

lemma zextends_trans: "zextends h1 h2 \<Longrightarrow> zextends h2 h3 \<Longrightarrow> zextends h1 h3"
  by (auto simp: zextends_def)

lemma zextends_val: "zextends h h' \<Longrightarrow> p < zs_next h \<Longrightarrow> zs_val h' p = zs_val h p"
  by (simp add: zextends_def)

lemma zextends_next: "zextends h h' \<Longrightarrow> p < zs_next h \<Longrightarrow> p < zs_next h'"
  by (simp add: zextends_def)

lemma zalloc_spec:
  "zalloc z h = (a, h') \<Longrightarrow>
   zextends h h' \<and> a = zs_next h \<and> zs_next h' = Suc a \<and> zs_val h' a = z"
  by (auto simp: zalloc_def zextends_def)

text \<open>
  The zone of an index after the loop over the subzones: a pointer into the store, at
  which the store holds the last matching subzone with the table's zone inherited, or the
  value of the pointer the loop started from.
\<close>

lemma indexZone_spec:
  assumes "indexZone env tz ixid subs (Some p0) h = (z, h')"
    and "tz < zs_next h" and "p0 < zs_next h"
  shows "zextends h h' \<and>
         (\<exists>p. z = Some p \<and> p < zs_next h' \<and>
              zs_val h' p =
                (case filter (\<lambda>s. sz_IndexID s = ixid \<and> sz_PartitionName s = []) subs of
                   [] \<Rightarrow> zs_val h p0
                 | s # ss \<Rightarrow> InheritFromParent env (sz_Config (last (s # ss))) (zs_val h tz)))"
  using assms
proof (induction subs arbitrary: p0 h)
  case Nil
  then show ?case by (auto simp: zextends_refl)
next
  case (Cons s subs)
  show ?case
  proof (cases "sz_IndexID s = ixid \<and> sz_PartitionName s = []")
    case False
    with Cons.prems have "indexZone env tz ixid subs (Some p0) h = (z, h')"
      by auto
    from Cons.IH [OF this Cons.prems(2,3)] False show ?thesis
      by auto
  next
    case True
    obtain a h1 where al: "zalloc (InheritFromParent env (sz_Config s) (zs_val h tz)) h = (a, h1)"
      by (cases "zalloc (InheritFromParent env (sz_Config s) (zs_val h tz)) h")
    from zalloc_spec [OF al] have e1: "zextends h h1" and a: "a = zs_next h"
      and n1: "zs_next h1 = Suc a"
      and v1: "zs_val h1 a = InheritFromParent env (sz_Config s) (zs_val h tz)"
      by auto
    from Cons.prems(1) True al have r: "indexZone env tz ixid subs (Some a) h1 = (z, h')"
      by (simp add: Let_def)
    have t1: "tz < zs_next h1" and a1: "a < zs_next h1"
      using Cons.prems(2) a n1 by auto
    have tv: "zs_val h1 tz = zs_val h tz"
      by (rule zextends_val [OF e1 Cons.prems(2)])
    from Cons.IH [OF r t1 a1] obtain p where
      e2: "zextends h1 h'" and z: "z = Some p" and p: "p < zs_next h'"
      and v: "zs_val h' p =
                (case filter (\<lambda>s. sz_IndexID s = ixid \<and> sz_PartitionName s = []) subs of
                   [] \<Rightarrow> zs_val h1 a
                 | s # ss \<Rightarrow> InheritFromParent env (sz_Config (last (s # ss))) (zs_val h1 tz))"
      by auto
    have "zs_val h' p =
            (case filter (\<lambda>s. sz_IndexID s = ixid \<and> sz_PartitionName s = []) (s # subs) of
               [] \<Rightarrow> zs_val h p0
             | s # ss \<Rightarrow> InheritFromParent env (sz_Config (last (s # ss))) (zs_val h tz))"
      using True v v1 tv by (simp split: list.splits)
    with zextends_trans [OF e1 e2] z p show ?thesis
      by blast
  qed
qed

lemma indexStep_zone:
  "indexStep cap cm i d z cols = Inr (oi, cols1) \<Longrightarrow> oi_zone oi = z"
  by (auto simp: indexStep_def optIndex_init_def Let_def
           split: if_splits list.splits sum.splits prod.splits)

lemma buildIndexes_zones:
  assumes "buildIndexes env cap cm tz i ds cols h = Inr (ois, cols', h')"
    and "tz < zs_next h"
  shows "zextends h h' \<and>
         list_all2 (\<lambda>d oi. \<exists>p. oi_zone oi = Some p \<and> p < zs_next h' \<and>
                      zs_val h' p = indexZoneValue env (zs_val h tz) (ix_ID d)) ds ois"
  using assms
proof (induction ds arbitrary: i cols h ois)
  case Nil
  then show ?case by (simp add: zextends_refl)
next
  case (Cons d ds)
  obtain z h1 where z: "indexZone env tz (ix_ID d) (zc_Subzones (zs_val h tz)) (Some tz) h = (z, h1)"
    by (cases "indexZone env tz (ix_ID d) (zc_Subzones (zs_val h tz)) (Some tz) h")
  from Cons.prems(1) z obtain oi cols1 ois1 where
    s: "indexStep cap cm i d z cols = Inr (oi, cols1)"
    and r: "buildIndexes env cap cm tz (i + 1) ds cols1 h1 = Inr (ois1, cols', h')"
    and o: "ois = oi # ois1"
    by (auto split: sum.splits)
  from indexZone_spec [OF z Cons.prems(2) Cons.prems(2)] obtain p where
    e1: "zextends h h1" and zp: "z = Some p" and p1: "p < zs_next h1"
    and v1: "zs_val h1 p = indexZoneValue env (zs_val h tz) (ix_ID d)"
    by (auto simp: indexZoneValue_def)
  have t1: "tz < zs_next h1"
    by (rule zextends_next [OF e1 Cons.prems(2)])
  have tv: "zs_val h1 tz = zs_val h tz"
    by (rule zextends_val [OF e1 Cons.prems(2)])
  from Cons.IH [OF r t1] have e2: "zextends h1 h'"
    and rest: "list_all2 (\<lambda>d oi. \<exists>p. oi_zone oi = Some p \<and> p < zs_next h' \<and>
                 zs_val h' p = indexZoneValue env (zs_val h tz) (ix_ID d)) ds ois1"
    unfolding tv by auto
  have "oi_zone oi = Some p"
    using indexStep_zone [OF s] zp by simp
  moreover have "p < zs_next h'"
    by (rule zextends_next [OF e2 p1])
  moreover have "zs_val h' p = indexZoneValue env (zs_val h tz) (ix_ID d)"
    using zextends_val [OF e2 p1] v1 by simp
  ultimately show ?case
    using zextends_trans [OF e1 e2] rest o by auto
qed

lemma buildColMap_cong:
  fixes cols cols' :: "Column list"
  assumes "map (\<lambda>c. (ucast (col_stableID c) :: ColumnID)) cols =
           map (\<lambda>c. (ucast (col_stableID c) :: ColumnID)) cols'"
  shows "buildColMap cols = buildColMap cols'"
proof -
  from assms have len: "length cols = length cols'"
    by (rule map_eq_imp_length_eq)
  have key: "(ucast (col_stableID (cols ! i)) :: ColumnID) = ucast (col_stableID (cols' ! i))"
    if "i < length cols" for i
    using that assms len by (metis nth_map)
  define F where "F = (\<lambda>n. fold (\<lambda>i m. m(ucast (col_stableID (cols ! i)) \<mapsto> i)) [0..<n]
                         (Map.empty :: ColumnID \<rightharpoonup> nat))"
  define F' where "F' = (\<lambda>n. fold (\<lambda>i m. m(ucast (col_stableID (cols' ! i)) \<mapsto> i)) [0..<n]
                          (Map.empty :: ColumnID \<rightharpoonup> nat))"
  have F0: "F 0 = F' 0"
    by (simp add: F_def F'_def)
  have FS: "F (Suc n) = (F n)(ucast (col_stableID (cols ! n)) \<mapsto> n)"
    and FS': "F' (Suc n) = (F' n)(ucast (col_stableID (cols' ! n)) \<mapsto> n)" for n
    by (simp_all add: F_def F'_def)
  have "n \<le> length cols \<Longrightarrow> F n = F' n" for n
  proof (induction n)
    case 0
    show ?case by (rule F0)
  next
    case (Suc n)
    then have "F n = F' n" by simp
    moreover from Suc.prems have "(ucast (col_stableID (cols ! n)) :: ColumnID) =
                                  ucast (col_stableID (cols' ! n))"
      by (intro key) simp
    ultimately show ?case by (simp only: FS FS')
  qed
  from this [of "length cols"] show ?thesis
    by (simp add: buildColMap_def len F_def F'_def)
qed

lemma UserDefinedTypeColsHaveSameVersion_refl:
  "UserDefinedTypeColsHaveSameVersion d d"
  by (auto simp: UserDefinedTypeColsHaveSameVersion_def list_all_iff zip_same)

lemma sameSnapshot_refl: "sameSnapshot env d d"
  by (simp add: sameSnapshot_def UserDefinedTypeColsHaveSameVersion_refl)

subsection \<open>Building a table twice\<close>

text \<open>
  C5, as stated, asks only for the same ID and version. The two example descriptors with
  the enum column have the same ID and version and differ in the version of the enum type;
  the tables built from them, with the same statistics slice and the same zone, are not
  equal.
\<close>

theorem round_trip_counterexample:
  "td_ID (ex_descM 1) = td_ID (ex_descM 2) \<and>
   td_Version (ex_descM 1) = td_Version (ex_descM 2) \<and>
   \<not> isl (ex_build (ex_descM 1) ex_zones) \<and>
   \<not> isl (ex_build (ex_descM 2) (ex_store (ex_descM 1) ex_zones)) \<and>
   optTable_Equals (ex_store (ex_descM 2) (ex_store (ex_descM 1) ex_zones))
     1 (ex_table (ex_descM 1) ex_zones)
     (TableObj 2 (ex_table (ex_descM 2) (ex_store (ex_descM 1) ex_zones))) = Inr False"
  by code_simp

lemma sameSnapshot_colMap:
  assumes "sameSnapshot env desc desc'"
    and "columns0 = descriptorColumns desc @
           (if FindColumnByName desc (MVCCTimestampColumnName env) = None
            then [systemColumn env desc] else [])"
    and "columns0' = descriptorColumns desc' @
           (if FindColumnByName desc' (MVCCTimestampColumnName env) = None
            then [systemColumn env desc'] else [])"
  shows "buildColMap columns0 = buildColMap columns0'"
proof (rule buildColMap_cong)
  from assms(1) have
    "map cd_ID (DeletableColumns desc) = map cd_ID (DeletableColumns desc')"
    "(FindColumnByName desc (MVCCTimestampColumnName env) = None) =
     (FindColumnByName desc' (MVCCTimestampColumnName env) = None)"
    by (simp_all add: sameSnapshot_def)
  then show "map (\<lambda>c. (ucast (col_stableID c) :: ColumnID)) columns0 =
             map (\<lambda>c. (ucast (col_stableID c) :: ColumnID)) columns0'"
    by (simp only: columns0_keys [OF assms(2)] columns0_keys [OF assms(3)])
qed

text \<open>
  C5, amended. Two tables are built, one after the other and with other allocations in
  between, from two descriptors of one snapshot (the same ID and version, the same column
  and index IDs, a column of the reserved name in both or in neither, the same versions of
  the user-defined column types), from the same statistics slice and the same zone, which
  is in the store before the first build. Then
  \<open>Equals\<close> of the first with the second returns true, in every store that extends the
  store of the second build.
\<close>

theorem round_trip:
  assumes b1: "newOptTable env h0 desc codec stats tblZone = Inr (t1, h1)"
    and x1: "zextends h1 h1'"
    and b2: "newOptTable env h1' desc' codec' stats tblZone = Inr (t2, h2)"
    and x2: "zextends h2 h"
    and same: "sameSnapshot env desc desc'"
    and al: "zallocated h0 tblZone"
  shows "optTable_Equals h a t1 (TableObj b t2) = Inr True"
proof -
  from b1 obtain c1 tz where
    a1: "addSystemColumn env desc (columnCapacity desc) (descriptorColumns desc) = Inr c1"
    and tz: "tblZone = Some tz"
    and i1: "buildIndexes env (columnCapacity desc) (buildColMap c1) tz 0 (indexDescriptors desc)
               c1 h0 = Inr (ot_indexes t1, ot_columns t1, h1)"
    and d1: "ot_desc t1 = desc"
    and s1: "ot_stats t1 = buildStats (buildColMap c1) (ss_elems stats)"
    by (auto elim: newOptTable_Inr)
  from b2 tz obtain c2 where
    a2: "addSystemColumn env desc' (columnCapacity desc') (descriptorColumns desc') = Inr c2"
    and i2: "buildIndexes env (columnCapacity desc') (buildColMap c2) tz 0 (indexDescriptors desc')
               c2 h1' = Inr (ot_indexes t2, ot_columns t2, h2)"
    and d2: "ot_desc t2 = desc'"
    and s2: "ot_stats t2 = buildStats (buildColMap c2) (ss_elems stats)"
    by (auto elim: newOptTable_Inr)
  have cm: "buildColMap c1 = buildColMap c2"
    by (rule sameSnapshot_colMap [OF same addSystemColumn_Inr [OF a1] addSystemColumn_Inr [OF a2]])
  have st: "ot_stats t1 = ot_stats t2"
    by (simp add: s1 s2 cm)
  from al tz have t0: "tz < zs_next h0"
    by (simp add: zallocated_def)
  from buildIndexes_zones [OF i1 t0] have e01: "zextends h0 h1"
    and z1: "list_all2 (\<lambda>d oi. \<exists>p. oi_zone oi = Some p \<and> p < zs_next h1 \<and>
               zs_val h1 p = indexZoneValue env (zs_val h0 tz) (ix_ID d))
             (indexDescriptors desc) (ot_indexes t1)"
    by auto
  have e0: "zextends h0 h1'"
    by (rule zextends_trans [OF e01 x1])
  have t1': "tz < zs_next h1'"
    by (rule zextends_next [OF e0 t0])
  have tv: "zs_val h1' tz = zs_val h0 tz"
    by (rule zextends_val [OF e0 t0])
  from buildIndexes_zones [OF i2 t1'] have e12: "zextends h1' h2"
    and z2: "list_all2 (\<lambda>d oi. \<exists>p. oi_zone oi = Some p \<and> p < zs_next h2 \<and>
               zs_val h2 p = indexZoneValue env (zs_val h0 tz) (ix_ID d))
             (indexDescriptors desc') (ot_indexes t2)"
    unfolding tv by auto
  have e1h: "zextends h1 h"
    by (rule zextends_trans [OF x1 zextends_trans [OF e12 x2]])
  from same have ids: "map ix_ID (indexDescriptors desc) = map ix_ID (indexDescriptors desc')"
    by (simp add: sameSnapshot_def)
  then have ld: "length (indexDescriptors desc) = length (indexDescriptors desc')"
    by (rule map_eq_imp_length_eq)
  from z1 have l1: "length (indexDescriptors desc) = length (ot_indexes t1)"
    by (rule list_all2_lengthD)
  from z2 have l2: "length (indexDescriptors desc') = length (ot_indexes t2)"
    by (rule list_all2_lengthD)
  have zi: "zone_Equal h (oi_zone (ot_indexes t1 ! i)) (oi_zone (ot_indexes t2 ! i))"
    if i: "i < length (ot_indexes t1)" for i
  proof -
    from i l1 have id: "i < length (indexDescriptors desc)" by simp
    with ld have id': "i < length (indexDescriptors desc')" by simp
    from ids id have e: "ix_ID (indexDescriptors desc ! i) = ix_ID (indexDescriptors desc' ! i)"
      by (metis nth_map ld)
    from z1 id obtain p where p: "oi_zone (ot_indexes t1 ! i) = Some p" "p < zs_next h1"
      "zs_val h1 p = indexZoneValue env (zs_val h0 tz) (ix_ID (indexDescriptors desc ! i))"
      by (auto simp: list_all2_conv_all_nth)
    from z2 id' obtain q where q: "oi_zone (ot_indexes t2 ! i) = Some q" "q < zs_next h2"
      "zs_val h2 q = indexZoneValue env (zs_val h0 tz) (ix_ID (indexDescriptors desc' ! i))"
      by (auto simp: list_all2_conv_all_nth)
    have "zs_val h p = zs_val h1 p"
      by (rule zextends_val [OF e1h p(2)])
    moreover have "zs_val h q = zs_val h2 q"
      by (rule zextends_val [OF x2 q(2)])
    ultimately show ?thesis
      using p q e by (simp add: zone_Equal_def)
  qed
  have z: "zone_Equal h None None"
    by (simp add: zone_Equal_def)
  have zs: "zonesEqual h (ot_indexes t1) (ot_indexes t2) None None = Inr True"
    unfolding zonesEqual_iff [OF z] using zi l1 l2 ld by simp
  have se: "statsEqual (ot_stats t2) (ot_stats t2)"
    by (simp add: statsEqual_iff optTableStat_equals_iff)
  from same have "td_ID desc = td_ID desc'" "td_Version desc = td_Version desc'"
    "UserDefinedTypeColsHaveSameVersion desc desc'"
    by (simp_all add: sameSnapshot_def)
  then show ?thesis
    by (simp add: optTable_Equals_def d1 d2 st se zs)
qed

theorem round_trip_witness:
  "optTable_Equals (ex_store (ex_descM 1) (ex_store (ex_descM 1) ex_zones))
     1 (ex_table (ex_descM 1) ex_zones)
     (TableObj 2 (ex_table (ex_descM 1) (ex_store (ex_descM 1) ex_zones))) = Inr True"
proof -
  let ?h1 = "ex_store (ex_descM 1) ex_zones"
  have b1: "newOptTable ex_env ex_zones (ex_descM 1) 0 (ex_stats 7) (Some 1) =
            Inr (ex_table (ex_descM 1) ex_zones, ?h1)"
    by (rule ex_build_Inr) code_simp
  have b2: "newOptTable ex_env ?h1 (ex_descM 1) 0 (ex_stats 7) (Some 1) =
            Inr (ex_table (ex_descM 1) ?h1, ex_store (ex_descM 1) ?h1)"
    by (rule ex_build_Inr) code_simp
  have al: "zallocated ex_zones (Some 1)"
    by (simp add: zallocated_def ex_zones_def)
  show ?thesis
    by (rule round_trip [OF b1 zextends_refl b2 zextends_refl sameSnapshot_refl al])
qed

end
